theory Spec2Isabelle
  imports Main "HOL-Library.Word"
begin

unbundle bit_operations_syntax

section \<open>TC358768 DPI to DSI encoder: data model\<close>

text \<open>
  The driver works on C unsigned 32-bit values (\<open>u32\<close>, \<open>unsigned\<close>) and on 64-bit
  intermediates (\<open>u64\<close>). Both are machine words here, so that \<open>+\<close> and \<open>*\<close> wrap and
  a cast is \<open>ucast\<close>.
\<close>

type_synonym u16 = "16 word"
type_synonym u32 = "32 word"
type_synonym u64 = "64 word"

text \<open>Register addresses used by the bring-up and teardown sequences.\<close>

named_theorems reg_defs \<open>the named constants of the driver\<close>

definition TC358768_SYSCTL :: u32 where [reg_defs]: "TC358768_SYSCTL = 0x0002"
definition TC358768_CONFCTL :: u32 where [reg_defs]: "TC358768_CONFCTL = 0x0004"
definition TC358768_VSDLY :: u32 where [reg_defs]: "TC358768_VSDLY = 0x0006"
definition TC358768_DATAFMT :: u32 where [reg_defs]: "TC358768_DATAFMT = 0x0008"
definition TC358768_PLLCTL0 :: u32 where [reg_defs]: "TC358768_PLLCTL0 = 0x0016"
definition TC358768_PLLCTL1 :: u32 where [reg_defs]: "TC358768_PLLCTL1 = 0x0018"
definition TC358768_PP_MISC :: u32 where [reg_defs]: "TC358768_PP_MISC = 0x0032"
definition TC358768_DSITX_DT :: u32 where [reg_defs]: "TC358768_DSITX_DT = 0x0050"
definition TC358768_CLW_CNTRL :: u32 where [reg_defs]: "TC358768_CLW_CNTRL = 0x0140"
definition TC358768_D0W_CNTRL :: u32 where [reg_defs]: "TC358768_D0W_CNTRL = 0x0144"
definition TC358768_D1W_CNTRL :: u32 where [reg_defs]: "TC358768_D1W_CNTRL = 0x0148"
definition TC358768_D2W_CNTRL :: u32 where [reg_defs]: "TC358768_D2W_CNTRL = 0x014C"
definition TC358768_D3W_CNTRL :: u32 where [reg_defs]: "TC358768_D3W_CNTRL = 0x0150"
definition TC358768_STARTCNTRL :: u32 where [reg_defs]: "TC358768_STARTCNTRL = 0x0204"
definition TC358768_LINEINITCNT :: u32 where [reg_defs]: "TC358768_LINEINITCNT = 0x0210"
definition TC358768_LPTXTIMECNT :: u32 where [reg_defs]: "TC358768_LPTXTIMECNT = 0x0214"
definition TC358768_TCLK_HEADERCNT :: u32 where [reg_defs]: "TC358768_TCLK_HEADERCNT = 0x0218"
definition TC358768_TCLK_TRAILCNT :: u32 where [reg_defs]: "TC358768_TCLK_TRAILCNT = 0x021C"
definition TC358768_THS_HEADERCNT :: u32 where [reg_defs]: "TC358768_THS_HEADERCNT = 0x0220"
definition TC358768_TWAKEUP :: u32 where [reg_defs]: "TC358768_TWAKEUP = 0x0224"
definition TC358768_TCLK_POSTCNT :: u32 where [reg_defs]: "TC358768_TCLK_POSTCNT = 0x0228"
definition TC358768_THS_TRAILCNT :: u32 where [reg_defs]: "TC358768_THS_TRAILCNT = 0x022C"
definition TC358768_HSTXVREGEN :: u32 where [reg_defs]: "TC358768_HSTXVREGEN = 0x0234"
definition TC358768_TXOPTIONCNTRL :: u32 where [reg_defs]: "TC358768_TXOPTIONCNTRL = 0x0238"
definition TC358768_BTACNTRL1 :: u32 where [reg_defs]: "TC358768_BTACNTRL1 = 0x023C"
definition TC358768_DSI_CONFW :: u32 where [reg_defs]: "TC358768_DSI_CONFW = 0x0500"
definition TC358768_DSI_START :: u32 where [reg_defs]: "TC358768_DSI_START = 0x0518"
definition TC358768_DSICMD_TX :: u32 where [reg_defs]: "TC358768_DSICMD_TX = 0x0600"
definition TC358768_DSICMD_TYPE :: u32 where [reg_defs]: "TC358768_DSICMD_TYPE = 0x0602"
definition TC358768_DSICMD_WC :: u32 where [reg_defs]: "TC358768_DSICMD_WC = 0x0604"
definition TC358768_DSICMD_WD0 :: u32 where [reg_defs]: "TC358768_DSICMD_WD0 = 0x0610"
definition TC358768_DSI_EVENT :: u32 where [reg_defs]: "TC358768_DSI_EVENT = 0x0620"
definition TC358768_DSI_VSW :: u32 where [reg_defs]: "TC358768_DSI_VSW = 0x0622"
definition TC358768_DSI_VBPR :: u32 where [reg_defs]: "TC358768_DSI_VBPR = 0x0624"
definition TC358768_DSI_VACT :: u32 where [reg_defs]: "TC358768_DSI_VACT = 0x0626"
definition TC358768_DSI_HSW :: u32 where [reg_defs]: "TC358768_DSI_HSW = 0x0628"
definition TC358768_DSI_HBPR :: u32 where [reg_defs]: "TC358768_DSI_HBPR = 0x062A"
definition TC358768_DSI_HACT :: u32 where [reg_defs]: "TC358768_DSI_HACT = 0x062C"

text \<open>Constants of \<open>video/mipi_display.h\<close> used by the short command transfers.\<close>

definition MIPI_DSI_DCS_SHORT_WRITE :: "8 word" where [reg_defs]: "MIPI_DSI_DCS_SHORT_WRITE = 0x05"
definition MIPI_DSI_DCS_SHORT_WRITE_PARAM :: "8 word" where [reg_defs]: "MIPI_DSI_DCS_SHORT_WRITE_PARAM = 0x15"
definition MIPI_DSI_TURN_ON_PERIPHERAL :: "8 word" where [reg_defs]: "MIPI_DSI_TURN_ON_PERIPHERAL = 0x32"
definition MIPI_DCS_EXIT_SLEEP_MODE :: "8 word" where [reg_defs]: "MIPI_DCS_EXIT_SLEEP_MODE = 0x11"
definition MIPI_DCS_SET_PIXEL_FORMAT :: "8 word" where [reg_defs]: "MIPI_DCS_SET_PIXEL_FORMAT = 0x3A"
definition MIPI_DCS_PIXEL_FMT_24BIT :: "8 word" where [reg_defs]: "MIPI_DCS_PIXEL_FMT_24BIT = 7"

definition UINT_MAX :: u32 where [reg_defs]: "UINT_MAX = 0xFFFFFFFF"
definition EINVAL :: int where [reg_defs]: "EINVAL = 22"

text \<open>
  \<open>struct tc358768_drv_data\<close>. The \<open>dev\<close> and \<open>regmap\<close> pointers are the bus of the
  next section; \<open>reset_gpio\<close> is kept as the fact whether the optional line exists.
\<close>

record tc358768_drv_data =
  reset_gpio :: bool
  dpi_ndl :: u32
  dsi_ndl :: u32
  fbd :: u32
  prd :: u32
  frs :: u32
  bitclk :: u32
  pixelclock :: u32
  refclk :: u32
  hsw :: u32
  hbp :: u32
  vsw :: u32
  vbp :: u32

section \<open>The bus and what the driver does to the outside\<close>

text \<open>
  Everything the driver does outside its own data is recorded as an event, in order:
  a \<open>regmap_write\<close> with the register, the value as passed and the return code, a
  \<open>regmap_read\<close> with the register, the value delivered and the return code, the two
  sleeps, and the reset line.
\<close>

datatype event =
    Bus_write u32 u32 int
  | Bus_read u32 u32 int
  | Usleep_range nat nat
  | Msleep nat
  | Gpio_set bool

text \<open>
  Modelled from the spec: the bus transport (\<open>regmap_write\<close>, \<open>regmap_read\<close> of the
  kernel's regmap over I2C, configured with 16 register bits and 16 value bits) is not part
  of the driver. It is a file of 16-bit registers addressed by the low 16 bits of the
  register number; a transaction returns the next scheduled return code of \<open>errs\<close>
  (0 is success, and an exhausted schedule means success); a failed transaction moves no
  data.
\<close>

record bus =
  regs :: "u16 \<Rightarrow> u16"
  errs :: "int list"
  trace :: "event list"

definition next_rc :: "bus \<Rightarrow> int" where
  "next_rc b = (case errs b of [] \<Rightarrow> 0 | rc # _ \<Rightarrow> rc)"

definition regmap_write :: "u32 \<Rightarrow> u32 \<Rightarrow> bus \<Rightarrow> int \<times> bus" where
  "regmap_write reg val b =
     (let rc = next_rc b in
      (rc, b\<lparr>regs := (if rc = 0 then (regs b)(ucast reg := ucast val) else regs b),
             errs := tl (errs b),
             trace := trace b @ [Bus_write reg val rc]\<rparr>))"

definition regmap_read :: "u32 \<Rightarrow> bus \<Rightarrow> (int + u32) \<times> bus" where
  "regmap_read reg b =
     (let rc = next_rc b; v = (ucast (regs b (ucast reg)) :: u32) in
      (if rc = 0 then Inr v else Inl rc,
       b\<lparr>errs := tl (errs b),
         trace := trace b @ [Bus_read reg (if rc = 0 then v else 0) rc]\<rparr>))"

definition usleep_range :: "nat \<Rightarrow> nat \<Rightarrow> bus \<Rightarrow> bus" where
  "usleep_range mn mx b = b\<lparr>trace := trace b @ [Usleep_range mn mx]\<rparr>"

definition msleep :: "nat \<Rightarrow> bus \<Rightarrow> bus" where
  "msleep ms b = b\<lparr>trace := trace b @ [Msleep ms]\<rparr>"

definition gpiod_set_value_cansleep :: "bool \<Rightarrow> bus \<Rightarrow> bus" where
  "gpiod_set_value_cansleep v b = b\<lparr>trace := trace b @ [Gpio_set v]\<rparr>"

section \<open>Register access layer\<close>

text \<open>\<open>tc358768_write\<close>: one transaction for a 16-bit register, two for a 32-bit one.\<close>

definition tc358768_write :: "u32 \<Rightarrow> u32 \<Rightarrow> bus \<Rightarrow> int \<times> bus" where
  "tc358768_write reg val b =
     (if reg < 0x100 \<or> reg \<ge> 0x600 then regmap_write reg val b
      else
        (case regmap_write reg val b of (r, b1) \<Rightarrow>
           if r \<noteq> 0 then (r, b1)
           else regmap_write (reg + 2) (drop_bit 16 val) b1))"

text \<open>
  \<open>tc358768_read\<close>: the value comes back through a pointer only on success, so the
  result is either the error code or the value.
\<close>

definition tc358768_read :: "u32 \<Rightarrow> bus \<Rightarrow> (int + u32) \<times> bus" where
  "tc358768_read reg b =
     (if reg < 0x100 \<or> reg \<ge> 0x600 then regmap_read reg b
      else
        (case regmap_read reg b of
           (Inl r, b1) \<Rightarrow> (Inl r, b1)
         | (Inr v1, b1) \<Rightarrow>
             (case regmap_read (reg + 2) b1 of
                (Inl r, b2) \<Rightarrow> (Inl r, b2)
              | (Inr v2, b2) \<Rightarrow> (Inr (v1 OR push_bit 16 v2), b2))))"

definition tc358768_update_bits :: "u32 \<Rightarrow> u32 \<Rightarrow> u32 \<Rightarrow> bus \<Rightarrow> int \<times> bus" where
  "tc358768_update_bits reg msk val b =
     (case tc358768_read reg b of
        (Inl ret, b1) \<Rightarrow> (ret, b1)
      | (Inr orig, b1) \<Rightarrow>
          (let tmp = (orig AND NOT msk) OR (val AND msk) in
           if tmp \<noteq> orig then tc358768_write reg tmp b1 else (0, b1)))"

text \<open>A call whose return code the caller throws away.\<close>

definition wr :: "u32 \<Rightarrow> u32 \<Rightarrow> bus \<Rightarrow> bus" where
  "wr reg val b = snd (tc358768_write reg val b)"

definition upd :: "u32 \<Rightarrow> u32 \<Rightarrow> u32 \<Rightarrow> bus \<Rightarrow> bus" where
  "upd reg msk val b = snd (tc358768_update_bits reg msk val b)"

section \<open>Clock conversions\<close>

text \<open>
  \<open>div_u64\<close> of \<open>linux/math64.h\<close>: an unsigned 64-bit dividend by a 32-bit divisor.
  A zero divisor is a fault of the kernel, not a value: \<open>None\<close>.
\<close>

definition div_u64 :: "u64 \<Rightarrow> u32 \<Rightarrow> u64 option" where
  "div_u64 dividend divisor =
     (if divisor = 0 then None else Some (dividend div ucast divisor))"

definition tc358768_pll_to_pclk :: "tc358768_drv_data \<Rightarrow> u32 \<Rightarrow> u32 option" where
  "tc358768_pll_to_pclk ddata pll =
     (let byteclk = pll div 2 div 4 in
      map_option ucast
        (div_u64 ((ucast byteclk :: u64) * 8 * ucast (dsi_ndl ddata)) (dpi_ndl ddata)))"

definition tc358768_pclk_to_pll :: "tc358768_drv_data \<Rightarrow> u32 option" where
  "tc358768_pclk_to_pll ddata =
     (case div_u64 ((ucast (pixelclock ddata) :: u64) * ucast (dpi_ndl ddata))
                   (8 * dsi_ndl ddata) of
        None \<Rightarrow> None
      | Some q \<Rightarrow> (let byteclk = (ucast q :: u32) in Some (byteclk * 4 * 2)))"

text \<open>
  The round trip of the two conversions: the pixel clock to the PLL frequency and back.
  \<open>truncation_bound\<close> is the error that the two truncating divisions alone allow: the
  result \<open>r\<close> is at most the pixel clock and \<open>(pixelclock - r) * dpi_ndl\<close> is below
  \<open>8 * dsi_ndl + dpi_ndl\<close>.
\<close>

definition pclk_roundtrip :: "tc358768_drv_data \<Rightarrow> u32 option" where
  "pclk_roundtrip ddata =
     (case tc358768_pclk_to_pll ddata of
        None \<Rightarrow> None
      | Some pll \<Rightarrow> tc358768_pll_to_pclk ddata pll)"

definition truncation_bound :: "tc358768_drv_data \<Rightarrow> u32 \<Rightarrow> bool" where
  "truncation_bound ddata r \<longleftrightarrow>
     unat r \<le> unat (pixelclock ddata) \<and>
     (unat (pixelclock ddata) - unat r) * unat (dpi_ndl ddata)
       < 8 * unat (dsi_ndl ddata) + unat (dpi_ndl ddata)"

section \<open>PLL solver\<close>

definition frs_limits :: "u32 list" where
  "frs_limits = [1000000000, 500000000, 250000000, 125000000, 62500000]"

text \<open>
  The bracket loop of \<open>tc358768_calc_pll\<close>, from index \<open>i\<close> on. \<open>None\<close> is the
  sentinel \<open>frs == UINT_MAX\<close>; a hit carries \<open>frs\<close>, \<open>max_pll\<close> and \<open>min_pll\<close>.
\<close>

function find_frs :: "nat \<Rightarrow> u32 \<Rightarrow> (u32 \<times> u32 \<times> u32) option" where
  "find_frs i target_pll =
     (if i < length frs_limits - 1 then
        (if target_pll < frs_limits ! i \<and> target_pll \<ge> frs_limits ! (i + 1)
         then Some (of_nat i, frs_limits ! i, frs_limits ! (i + 1))
         else find_frs (i + 1) target_pll)
      else None)"
  by pat_completeness auto
termination
  by (relation "measure (\<lambda>(i, t). length frs_limits - 1 - i)") auto

text \<open>The four \<open>best_*\<close> locals of the divider search.\<close>

record pll_best =
  best_diff :: u32
  best_pll :: u32
  best_prd :: u32
  best_fbd :: u32

text \<open>
  The candidate frequency of one divider pair:
  \<open>(u32)div_u64((u64)refclk * (fbd + 1), divisor)\<close>. The divisor is
  \<open>(prd + 1) * (1 << frs)\<close> with \<open>prd < 16\<close> and \<open>frs < 4\<close>, so it is never zero and the
  division is the plain one.
\<close>

definition pll_divisor :: "u32 \<Rightarrow> u32 \<Rightarrow> u32" where
  "pll_divisor frs_v prd_v = (prd_v + 1) * push_bit (unat frs_v) 1"

definition pll_cand :: "u32 \<Rightarrow> u32 \<Rightarrow> u32 \<Rightarrow> u32" where
  "pll_cand rclk divisor fbd_v =
     ucast (((ucast rclk :: u64) * ucast (fbd_v + 1)) div ucast divisor)"

text \<open>
  The inner loop over \<open>fbd\<close> (here \<open>fbd_v\<close>, the field of the driver data having the name), from the
  current value on. It returns the value of the loop
  variable at exit together with the best candidate so far.
\<close>

function inner_loop ::
  "u32 \<Rightarrow> u32 \<Rightarrow> u32 \<Rightarrow> u32 \<Rightarrow> u32 \<Rightarrow> u32 \<Rightarrow> u32 \<Rightarrow> pll_best \<Rightarrow> u32 \<times> pll_best" where
  "inner_loop rclk divisor max_pll min_pll target_pll prd_v fbd_v best =
     (if fbd_v < 512 then
        (let pll = pll_cand rclk divisor fbd_v in
         if pll \<ge> max_pll \<or> pll < min_pll
         then inner_loop rclk divisor max_pll min_pll target_pll prd_v (fbd_v + 1) best
         else
           (let diff = max pll target_pll - min pll target_pll;
                best' = (if diff < best_diff best
                         then \<lparr>best_diff = diff, best_pll = pll,
                               best_prd = prd_v, best_fbd = fbd_v\<rparr>
                         else best)
            in if best_diff best' = 0 then (fbd_v, best')
               else inner_loop rclk divisor max_pll min_pll target_pll prd_v (fbd_v + 1) best'))
      else (fbd_v, best))"
  by pat_completeness auto
termination
  by (relation "measure (\<lambda>(r, dv, mx, mn, t, p, f, b). 512 - unat f)")
     (auto simp: word_less_nat_alt unat_word_ariths)

text \<open>
  The outer loop over \<open>prd\<close>. \<open>fbd_v\<close> is the function-scope variable \<open>fbd\<close> of the C
  code, set by every run of the inner loop.
\<close>

function outer_loop ::
  "u32 \<Rightarrow> u32 \<Rightarrow> u32 \<Rightarrow> u32 \<Rightarrow> u32 \<Rightarrow> u32 \<Rightarrow> u32 \<Rightarrow> pll_best \<Rightarrow> u32 \<times> u32 \<times> pll_best" where
  "outer_loop rclk frs_v max_pll min_pll target_pll prd_v fbd_v best =
     (if prd_v < 16 then
        (let divisor = pll_divisor frs_v prd_v in
         case inner_loop rclk divisor max_pll min_pll target_pll prd_v 0 best of
           (fbd', best') \<Rightarrow>
             if best_diff best' = 0 then (prd_v, fbd', best')
             else outer_loop rclk frs_v max_pll min_pll target_pll (prd_v + 1) fbd' best')
      else (prd_v, fbd_v, best))"
  by pat_completeness auto
termination
  by (relation "measure (\<lambda>(r, fr, mx, mn, t, p, f, b). 16 - unat p)")
     (auto simp: word_less_nat_alt unat_word_ariths)

text \<open>
  The two failures of the solver. Both return \<open>-EINVAL\<close>; they differ in the message
  logged: \<open>could not find frs value\<close> and \<open>could not find suitable PLL setup\<close>.
\<close>

datatype pll_error = OutOfRange | NoSolution

definition pll_search :: "u32 \<Rightarrow> u32 \<Rightarrow> u32 \<Rightarrow> u32 \<Rightarrow> u32 \<Rightarrow> u32 \<times> u32 \<times> pll_best" where
  "pll_search rclk frs_v max_pll min_pll target_pll =
     outer_loop rclk frs_v max_pll min_pll target_pll 0 0
       \<lparr>best_diff = UINT_MAX, best_pll = 0, best_prd = 0, best_fbd = 0\<rparr>"

text \<open>
  \<open>tc358768_calc_pll\<close>. \<open>None\<close> is the division fault of \<open>tc358768_pclk_to_pll\<close>;
  on success the four solution fields of the driver data are set.
\<close>

definition tc358768_calc_pll :: "tc358768_drv_data \<Rightarrow> (pll_error + tc358768_drv_data) option" where
  "tc358768_calc_pll ddata =
     (case tc358768_pclk_to_pll ddata of
        None \<Rightarrow> None
      | Some target_pll \<Rightarrow>
          Some (case find_frs 0 target_pll of
             None \<Rightarrow> Inl OutOfRange
           | Some (frs_v, max_pll, min_pll) \<Rightarrow>
               (case pll_search (refclk ddata) frs_v max_pll min_pll target_pll of
                  (prd_end, fbd_end, best) \<Rightarrow>
                    if best_diff best = UINT_MAX then Inl NoSolution
                    else Inr (ddata\<lparr>fbd := best_fbd best, prd := best_prd best,
                                     frs := frs_v, bitclk := best_pll best div 2\<rparr>))))"

section \<open>What the divider search is to find\<close>

text \<open>
  The words of the specification for the search, to compare the loops with. A candidate is
  in the bracket when the loop does not skip it; its distance from the target is the
  absolute difference of the two frequencies.
\<close>

definition in_bracket :: "u32 \<Rightarrow> u32 \<Rightarrow> u32 \<Rightarrow> bool" where
  "in_bracket max_pll min_pll pll \<longleftrightarrow> min_pll \<le> pll \<and> pll < max_pll"

definition freq_dist :: "u32 \<Rightarrow> u32 \<Rightarrow> nat" where
  "freq_dist pll target_pll =
     (if unat pll \<le> unat target_pll then unat target_pll - unat pll
      else unat pll - unat target_pll)"

text \<open>
  The frequency of a solution in the words of the specification:
  \<open>refclk * (fbd + 1) / ((prd + 1) * 2^frs)\<close>, in natural numbers, truncating.
\<close>

definition pll_freq :: "tc358768_drv_data \<Rightarrow> nat" where
  "pll_freq ddata =
     unat (refclk ddata) * (unat (fbd ddata) + 1)
       div ((unat (prd ddata) + 1) * 2 ^ unat (frs ddata))"

text \<open>The divider pairs the loops have been through when they stand at \<open>(prd, fbd)\<close>.\<close>

definition examined :: "u32 \<Rightarrow> u32 \<Rightarrow> (u32 \<times> u32) set" where
  "examined prd_v fbd_v = {(p, f). f < 512 \<and> (p < prd_v \<or> (p = prd_v \<and> f < fbd_v))}"

text \<open>
  \<open>is_best c max_pll min_pll target_pll S best\<close>: among the pairs of \<open>S\<close>, with
  candidate frequencies \<open>c\<close>, either none is in the bracket and \<open>best\<close> is still the
  initial record, or \<open>best\<close> is a pair of \<open>S\<close> in the bracket that is strictly nearer
  to the target than every other such pair before which it does not come in loop order.
\<close>

definition is_best ::
  "(u32 \<Rightarrow> u32 \<Rightarrow> u32) \<Rightarrow> u32 \<Rightarrow> u32 \<Rightarrow> u32 \<Rightarrow> (u32 \<times> u32) set \<Rightarrow> pll_best \<Rightarrow> bool" where
  "is_best c max_pll min_pll target_pll S best \<longleftrightarrow>
     ((\<forall>(p, f) \<in> S. \<not> in_bracket max_pll min_pll (c p f)) \<and>
      best = \<lparr>best_diff = UINT_MAX, best_pll = 0, best_prd = 0, best_fbd = 0\<rparr>)
     \<or>
     ((best_prd best, best_fbd best) \<in> S \<and>
      in_bracket max_pll min_pll (c (best_prd best) (best_fbd best)) \<and>
      best_pll best = c (best_prd best) (best_fbd best) \<and>
      unat (best_diff best) = freq_dist (best_pll best) target_pll \<and>
      (\<forall>(p, f) \<in> S. in_bracket max_pll min_pll (c p f) \<longrightarrow>
         freq_dist (best_pll best) target_pll < freq_dist (c p f) target_pll \<or>
         (freq_dist (best_pll best) target_pll = freq_dist (c p f) target_pll \<and>
          (best_prd best < p \<or> (best_prd best = p \<and> best_fbd best \<le> f)))))"

section \<open>Short command transfer\<close>

text \<open>
  \<open>tc358768_dsi_xfer_short\<close> drops the return code of each of its four writes and
  returns 0.
\<close>

definition tc358768_dsi_xfer_short :: "8 word \<Rightarrow> 8 word \<Rightarrow> 8 word \<Rightarrow> bus \<Rightarrow> int \<times> bus" where
  "tc358768_dsi_xfer_short data_id data0 data1 b =
     (let packet_type = (0x10 :: 8 word);
          word_count = (0 :: 8 word);
          b = wr TC358768_DSICMD_TYPE (push_bit 8 (ucast packet_type) OR ucast data_id) b;
          b = wr TC358768_DSICMD_WC (ucast word_count AND 0xf) b;
          b = wr TC358768_DSICMD_WD0 (push_bit 8 (ucast data1) OR ucast data0) b;
          b = wr TC358768_DSICMD_TX 1 b
      in (0, b))"

section \<open>Bring-up and teardown\<close>

definition tc358768_sw_reset :: "bus \<Rightarrow> bus" where
  "tc358768_sw_reset b =
     (let b = wr TC358768_SYSCTL 1 b;
          b = wr TC358768_SYSCTL 0 b
      in b)"

text \<open>
  \<open>tc358768_setup_pll\<close>. The file defines \<open>DEBUG\<close>, so the second \<open>dev_dbg\<close> line
  evaluates \<open>tc358768_pll_to_pclk(ddata, ddata->bitclk * 2)\<close> before any write; its
  division fault is the \<open>None\<close> here. The log text itself is not an event.
\<close>

definition tc358768_setup_pll :: "tc358768_drv_data \<Rightarrow> bus \<Rightarrow> bus option" where
  "tc358768_setup_pll ddata b =
     (let fbd_v = fbd ddata; prd_v = prd ddata; frs_v = frs ddata in
      case tc358768_pll_to_pclk ddata (bitclk ddata * 2) of
        None \<Rightarrow> None
      | Some _ \<Rightarrow>
          (let b = wr TC358768_PLLCTL0 (push_bit 12 prd_v OR fbd_v) b;
               b = wr TC358768_PLLCTL1
                     (push_bit 10 frs_v OR push_bit 8 0x2 OR push_bit 4 0
                        OR push_bit 1 1 OR push_bit 0 1) b;
               b = usleep_range 1000 2000 b;
               b = wr TC358768_PLLCTL1
                     (push_bit 10 frs_v OR push_bit 8 0x2 OR push_bit 4 1
                        OR push_bit 1 1 OR push_bit 0 1) b
           in Some b))"

text \<open>
  The value for the horizontal sync-width register:
  \<open>(u32)div_u64((hsw + hbp) * ((u64)bitclk / 4) * dsi_ndl, pixelclock)\<close>, the sum in 32
  bits, the products in 64.
\<close>

definition dsi_hsw_value :: "tc358768_drv_data \<Rightarrow> u32 option" where
  "dsi_hsw_value ddata =
     map_option ucast
       (div_u64 ((ucast (hsw ddata + hbp ddata) :: u64)
                   * ((ucast (bitclk ddata) :: u64) div 4)
                   * ucast (dsi_ndl ddata))
                (pixelclock ddata))"

text \<open>
  \<open>tc358768_power_on\<close>: every write in source order, each return code dropped.
  \<open>None\<close> is a division fault, in \<open>tc358768_setup_pll\<close> or at the sync-width value.
\<close>

definition tc358768_power_on :: "tc358768_drv_data \<Rightarrow> bus \<Rightarrow> bus option" where
  "tc358768_power_on ddata b =
     (let b = tc358768_sw_reset b in
      case tc358768_setup_pll ddata b of
        None \<Rightarrow> None
      | Some b \<Rightarrow>
     (let b = wr TC358768_VSDLY 1 b;
          b = wr TC358768_DATAFMT (push_bit 4 0x3 OR push_bit 2 1 OR push_bit 1 1 OR push_bit 0 1) b;
          b = wr TC358768_DSITX_DT 0x003e b;
          b = wr TC358768_CLW_CNTRL 0x0000 b;
          b = wr TC358768_D0W_CNTRL 0x0000 b;
          b = wr TC358768_D1W_CNTRL 0x0000 b;
          b = wr TC358768_D2W_CNTRL 0x0000 b;
          b = wr TC358768_D3W_CNTRL 0x0000 b;
          b = wr TC358768_LINEINITCNT 0x00002c88 b;
          b = wr TC358768_LPTXTIMECNT 0x00000005 b;
          b = wr TC358768_TCLK_HEADERCNT 0x00001f06 b;
          b = wr TC358768_TCLK_TRAILCNT 0x00000003 b;
          b = wr TC358768_THS_HEADERCNT 0x00000606 b;
          b = wr TC358768_TWAKEUP 0x00004a88 b;
          b = wr TC358768_TCLK_POSTCNT 0x0000000b b;
          b = wr TC358768_THS_TRAILCNT 0x00000004 b;
          b = wr TC358768_HSTXVREGEN 0x0000001f b;
          b = wr TC358768_TXOPTIONCNTRL 0x1 b;
          b = snd (tc358768_dsi_xfer_short MIPI_DSI_DCS_SHORT_WRITE MIPI_DCS_EXIT_SLEEP_MODE 0 b);
          b = wr TC358768_BTACNTRL1 (push_bit 16 0x5 OR 0x5) b;
          b = wr TC358768_STARTCNTRL 0x1 b;
          b = wr TC358768_DSI_EVENT 1 b;
          b = wr TC358768_DSI_VSW (vsw ddata + vbp ddata) b;
          b = wr TC358768_DSI_VBPR 0 b;
          b = wr TC358768_DSI_VACT 1920 b
      in case dsi_hsw_value ddata of
           None \<Rightarrow> None
         | Some hsw_v \<Rightarrow>
     (let b = wr TC358768_DSI_HSW hsw_v b;
          b = wr TC358768_DSI_HBPR 0 b;
          b = wr TC358768_DSI_HACT (1200 * 3) b;
          b = wr TC358768_DSI_START 0x1 b;
          b = wr TC358768_DSI_CONFW (push_bit 29 5 OR push_bit 24 0x3 OR 0xa7) b;
          b = wr TC358768_DSI_CONFW (push_bit 29 6 OR push_bit 24 0x3 OR 0x8000) b;
          b = upd TC358768_PP_MISC (push_bit 14 0x3) 0 b;
          b = upd TC358768_CONFCTL (push_bit 6 1) (push_bit 6 1) b
      in Some b)))"

definition tc358768_power_off :: "bus \<Rightarrow> bus" where
  "tc358768_power_off b =
     (let b = upd TC358768_PP_MISC (push_bit 15 1) (push_bit 15 1) b;
          b = msleep 50 b;
          b = upd TC358768_CONFCTL (push_bit 6 1) 0 b;
          b = upd TC358768_PP_MISC (push_bit 14 1) (push_bit 14 1) b
      in b)"

text \<open>
  \<open>tc358768_enable\<close> returns the code, the driver data and the bus; \<open>None\<close> is a
  division fault on the way.
\<close>

definition tc358768_enable ::
  "tc358768_drv_data \<Rightarrow> bus \<Rightarrow> (int \<times> tc358768_drv_data \<times> bus) option" where
  "tc358768_enable ddata b =
     (case tc358768_calc_pll ddata of
        None \<Rightarrow> None
      | Some (Inl e) \<Rightarrow> Some (- EINVAL, ddata, b)
      | Some (Inr ddata) \<Rightarrow>
          (let b = (if reset_gpio ddata then gpiod_set_value_cansleep True b else b);
               b = usleep_range 1000 2000 b
           in case tc358768_power_on ddata b of
                None \<Rightarrow> None
              | Some b \<Rightarrow>
                  (let b = snd (tc358768_dsi_xfer_short MIPI_DSI_TURN_ON_PERIPHERAL 0 0 b);
                       b = snd (tc358768_dsi_xfer_short MIPI_DSI_DCS_SHORT_WRITE_PARAM
                                  MIPI_DCS_SET_PIXEL_FORMAT MIPI_DCS_PIXEL_FMT_24BIT b)
                   in Some (0, ddata, b))))"

definition tc358768_disable :: "tc358768_drv_data \<Rightarrow> bus \<Rightarrow> bus" where
  "tc358768_disable ddata b =
     (let b = tc358768_power_off b in
      if reset_gpio ddata then gpiod_set_value_cansleep False b else b)"

text \<open>The configuration set by \<open>tc358768_i2c_probe\<close>, and an empty bus that never fails.\<close>

definition probe_ddata :: tc358768_drv_data where
  "probe_ddata =
     \<lparr>reset_gpio = True, dpi_ndl = 24, dsi_ndl = 4, fbd = 0, prd = 0, frs = 0, bitclk = 0,
      pixelclock = 154900000, refclk = 154900000 div 4,
      hsw = 1, hbp = 60, vsw = 1, vbp = 25\<rparr>"

text \<open>The same with a pixel clock too slow and too fast for the PLL.\<close>

definition ddata_slow :: tc358768_drv_data where
  "ddata_slow = probe_ddata\<lparr>pixelclock := 10000000, refclk := 2500000\<rparr>"

definition ddata_fast :: tc358768_drv_data where
  "ddata_fast = probe_ddata\<lparr>pixelclock := 200000000, refclk := 50000000\<rparr>"

text \<open>A pixel clock of 4 GHz: it fits 32 bits, eight times its byte clock does not.\<close>

definition ddata_4g :: tc358768_drv_data where
  "ddata_4g = probe_ddata\<lparr>pixelclock := 4000000000, refclk := 1000000000\<rparr>"

text \<open>
  The probe configuration with its PLL solution, and sync widths whose sums do not fit 32
  bits.
\<close>

definition ddata_solved :: tc358768_drv_data where
  "ddata_solved = probe_ddata\<lparr>fbd := 23, prd := 0, frs := 0, bitclk := 464700000\<rparr>"

definition ddata_wrap :: tc358768_drv_data where
  "ddata_wrap = ddata_solved\<lparr>hsw := 0xFFFFFFFF, hbp := 2, vsw := 0xFFFFFFFF, vbp := 2\<rparr>"

text \<open>
  The probe configuration with a pixel clock of 83,804,242 Hz (and its reference clock, a
  quarter of it), and what the solver returns for it.
\<close>

definition ddata_wrapped :: tc358768_drv_data where
  "ddata_wrapped = probe_ddata\<lparr>pixelclock := 83804242, refclk := 83804242 div 4\<rparr>"

definition ddata_wrapped_solved :: tc358768_drv_data where
  "ddata_wrapped_solved = ddata_wrapped\<lparr>fbd := 433, prd := 0, frs := 0, bitclk := 251412724\<rparr>"

definition bus0 :: bus where
  "bus0 = \<lparr>regs = (\<lambda>_. 0), errs = [], trace = []\<rparr>"

text \<open>A bus whose first transaction fails with \<open>-EIO\<close> and whose later ones succeed.\<close>

definition bus_fail_first :: bus where
  "bus_fail_first = bus0\<lparr>errs := [- 5]\<rparr>"

text \<open>A bus that never fails, with the pixel-pipe enable bit (bit 6 of CONFCTL) set.\<close>

definition bus_streaming :: bus where
  "bus_streaming = bus0\<lparr>regs := (\<lambda>_. 0)(0x0004 := 0x0040)\<rparr>"

section \<open>Observations on the event trace\<close>

text \<open>The bus never reports an error: every scheduled return code is 0.\<close>

definition no_bus_error :: "bus \<Rightarrow> bool" where
  "no_bus_error b = list_all (\<lambda>rc. rc = 0) (errs b)"

text \<open>The events that happened between an earlier and a later state of the bus.\<close>

definition new_events :: "bus \<Rightarrow> bus \<Rightarrow> event list" where
  "new_events b b' = drop (length (trace b)) (trace b')"

fun is_write :: "event \<Rightarrow> bool" where
  "is_write (Bus_write reg val rc) = True"
| "is_write _ = False"



fun is_write_to :: "u32 \<Rightarrow> event \<Rightarrow> bool" where
  "is_write_to a (Bus_write reg val rc) = (reg = a)"
| "is_write_to a _ = False"

text \<open>An event without the return code of the bus: what the driver asked for.\<close>

datatype request = Write_req u32 u32 | Read_req u32 | Sleep_req nat nat | Msleep_req nat | Gpio_req bool

fun request_of :: "event \<Rightarrow> request" where
  "request_of (Bus_write reg val rc) = Write_req reg val"
| "request_of (Bus_read reg val rc) = Read_req reg"
| "request_of (Usleep_range mn mx) = Sleep_req mn mx"
| "request_of (Msleep ms) = Msleep_req ms"
| "request_of (Gpio_set v) = Gpio_req v"

text \<open>The requests recorded on a bus, and two families of them.\<close>

definition requests :: "bus \<Rightarrow> request list" where
  "requests b = map request_of (trace b)"

fun writes_reg :: "u32 \<Rightarrow> request \<Rightarrow> bool" where
  "writes_reg a (Write_req reg val) = (reg = a)"
| "writes_reg a _ = False"

fun sleeps :: "request \<Rightarrow> bool" where
  "sleeps (Sleep_req mn mx) = True"
| "sleeps (Msleep_req ms) = True"
| "sleeps _ = False"

text \<open>The writes to the two sync-width registers, in the order they were requested.\<close>

definition sync_width_writes :: "bus \<Rightarrow> request list" where
  "sync_width_writes b =
     filter (\<lambda>q. writes_reg TC358768_DSI_VSW q \<or> writes_reg TC358768_DSI_HSW q) (requests b)"

text \<open>
  Two views of a request list for the order of bring-up: the sleeps together with the
  writes to PLLCTL1, and the writes to the two halves of DSI_CONFW.
\<close>

definition pll_view :: "request list \<Rightarrow> request list" where
  "pll_view rs = filter (\<lambda>q. sleeps q \<or> writes_reg TC358768_PLLCTL1 q) rs"

definition confw_view :: "request list \<Rightarrow> request list" where
  "confw_view rs =
     filter (\<lambda>q. writes_reg TC358768_DSI_CONFW q \<or> writes_reg (TC358768_DSI_CONFW + 2) q) rs"

text \<open>
  The requests that start a step of a sequence: everything but the second transaction of a
  32-bit write (a write to an address between 0x100 and 0x600 with bit 1 set; the 32-bit
  registers lie at multiples of 4) and the write-back of an \<open>update_bits\<close> (the writes to
  PP_MISC and CONFCTL, which the sequences touch through \<open>update_bits\<close> only).
\<close>

fun starts_step :: "request \<Rightarrow> bool" where
  "starts_step (Write_req reg val) =
     (reg \<noteq> TC358768_PP_MISC \<and> reg \<noteq> TC358768_CONFCTL \<and>
      (reg < 0x100 \<or> reg \<ge> 0x600 \<or> reg AND 2 = 0))"
| "starts_step _ = True"

text \<open>
  The steps of \<open>tc358768_enable\<close> after the solver, in source order, for a solved
  configuration and its horizontal sync-width value.
\<close>

definition enable_steps :: "tc358768_drv_data \<Rightarrow> u32 \<Rightarrow> request list" where
  "enable_steps ddata hsw_v =
     (if reset_gpio ddata then [Gpio_req True] else []) @
     [Sleep_req 1000 2000,
      Write_req TC358768_SYSCTL 1,
      Write_req TC358768_SYSCTL 0,
      Write_req TC358768_PLLCTL0 (push_bit 12 (prd ddata) OR fbd ddata),
      Write_req TC358768_PLLCTL1
        (push_bit 10 (frs ddata) OR push_bit 8 0x2 OR push_bit 4 0 OR push_bit 1 1 OR push_bit 0 1),
      Sleep_req 1000 2000,
      Write_req TC358768_PLLCTL1
        (push_bit 10 (frs ddata) OR push_bit 8 0x2 OR push_bit 4 1 OR push_bit 1 1 OR push_bit 0 1),
      Write_req TC358768_VSDLY 1,
      Write_req TC358768_DATAFMT 0x37,
      Write_req TC358768_DSITX_DT 0x3e,
      Write_req TC358768_CLW_CNTRL 0,
      Write_req TC358768_D0W_CNTRL 0,
      Write_req TC358768_D1W_CNTRL 0,
      Write_req TC358768_D2W_CNTRL 0,
      Write_req TC358768_D3W_CNTRL 0,
      Write_req TC358768_LINEINITCNT 0x2c88,
      Write_req TC358768_LPTXTIMECNT 0x5,
      Write_req TC358768_TCLK_HEADERCNT 0x1f06,
      Write_req TC358768_TCLK_TRAILCNT 0x3,
      Write_req TC358768_THS_HEADERCNT 0x606,
      Write_req TC358768_TWAKEUP 0x4a88,
      Write_req TC358768_TCLK_POSTCNT 0xb,
      Write_req TC358768_THS_TRAILCNT 0x4,
      Write_req TC358768_HSTXVREGEN 0x1f,
      Write_req TC358768_TXOPTIONCNTRL 0x1,
      Write_req TC358768_DSICMD_TYPE 0x1005,
      Write_req TC358768_DSICMD_WC 0,
      Write_req TC358768_DSICMD_WD0 0x0011,
      Write_req TC358768_DSICMD_TX 1,
      Write_req TC358768_BTACNTRL1 0x50005,
      Write_req TC358768_STARTCNTRL 0x1,
      Write_req TC358768_DSI_EVENT 1,
      Write_req TC358768_DSI_VSW (vsw ddata + vbp ddata),
      Write_req TC358768_DSI_VBPR 0,
      Write_req TC358768_DSI_VACT 1920,
      Write_req TC358768_DSI_HSW hsw_v,
      Write_req TC358768_DSI_HBPR 0,
      Write_req TC358768_DSI_HACT 3600,
      Write_req TC358768_DSI_START 0x1,
      Write_req TC358768_DSI_CONFW 0xa30000a7,
      Write_req TC358768_DSI_CONFW 0xc3008000,
      Read_req TC358768_PP_MISC,
      Read_req TC358768_CONFCTL,
      Write_req TC358768_DSICMD_TYPE 0x1032,
      Write_req TC358768_DSICMD_WC 0,
      Write_req TC358768_DSICMD_WD0 0,
      Write_req TC358768_DSICMD_TX 1,
      Write_req TC358768_DSICMD_TYPE 0x1015,
      Write_req TC358768_DSICMD_WC 0,
      Write_req TC358768_DSICMD_WD0 0x073a,
      Write_req TC358768_DSICMD_TX 1]"

text \<open>What a caller and a recording bus see of \<open>tc358768_enable\<close>: the code and the events.\<close>

definition enable_outcome :: "tc358768_drv_data \<Rightarrow> bus \<Rightarrow> (int \<times> event list) option" where
  "enable_outcome ddata b =
     map_option (\<lambda>(rc, ddata', b'). (rc, trace b')) (tc358768_enable ddata b)"

section \<open>Set-up\<close>

text \<open>The loops are unfolded by hand, one step at a time.\<close>

declare find_frs.simps [simp del] inner_loop.simps [simp del] outer_loop.simps [simp del]

section \<open>Facts about the bus\<close>

lemma next_rc_no_error: "no_bus_error b \<Longrightarrow> next_rc b = 0"
  by (cases "errs b") (simp_all add: no_bus_error_def next_rc_def)

lemma regmap_write_fst: "fst (regmap_write reg val b) = next_rc b"
  by (simp add: regmap_write_def Let_def)

lemma regmap_write_trace:
  "trace (snd (regmap_write reg val b)) = trace b @ [Bus_write reg val (next_rc b)]"
  by (simp add: regmap_write_def Let_def)

lemma regmap_write_regs:
  "regs (snd (regmap_write reg val b)) =
     (if next_rc b = 0 then (regs b)(ucast reg := ucast val) else regs b)"
  by (simp add: regmap_write_def Let_def)

lemma regmap_write_errs: "errs (snd (regmap_write reg val b)) = tl (errs b)"
  by (simp add: regmap_write_def Let_def)

lemma regmap_read_fst:
  "fst (regmap_read reg b) =
     (if next_rc b = 0 then Inr (ucast (regs b (ucast reg))) else Inl (next_rc b))"
  by (simp add: regmap_read_def Let_def)

lemma regmap_read_trace:
  "trace (snd (regmap_read reg b)) =
     trace b @ [Bus_read reg (if next_rc b = 0 then ucast (regs b (ucast reg)) else 0) (next_rc b)]"
  by (simp add: regmap_read_def Let_def)

lemma regmap_read_regs: "regs (snd (regmap_read reg b)) = regs b"
  by (simp add: regmap_read_def Let_def)

lemma regmap_read_errs: "errs (snd (regmap_read reg b)) = tl (errs b)"
  by (simp add: regmap_read_def Let_def)

lemmas regmap_simps =
  regmap_write_fst regmap_write_trace regmap_write_regs regmap_write_errs
  regmap_read_fst regmap_read_trace regmap_read_regs regmap_read_errs

lemma no_bus_error_tl: "no_bus_error b \<Longrightarrow> errs b' = tl (errs b) \<Longrightarrow> no_bus_error b'"
  by (cases "errs b") (simp_all add: no_bus_error_def)

lemma no_bus_error_regmap_write: "no_bus_error b \<Longrightarrow> no_bus_error (snd (regmap_write reg val b))"
  by (rule no_bus_error_tl) (simp_all add: regmap_write_errs)

lemma no_bus_error_regmap_read: "no_bus_error b \<Longrightarrow> no_bus_error (snd (regmap_read reg b))"
  by (rule no_bus_error_tl) (simp_all add: regmap_read_errs)

lemma new_events_append: "trace b' = trace b @ es \<Longrightarrow> new_events b b' = es"
  by (simp add: new_events_def)

section \<open>Facts about the two register widths\<close>

lemma halves_join:
  "ucast (ucast (val :: u32) :: u16) OR push_bit 16 (ucast (ucast (drop_bit 16 val) :: u16)) = val"
  by (rule bit_word_eqI) (auto simp: bit_simps)

lemma wide_addr_distinct:
  assumes "\<not> (reg < 0x100 \<or> reg \<ge> 0x600)"
  shows "(ucast (reg + 2) :: u16) \<noteq> ucast (reg :: u32)"
proof -
  from assms have r: "unat reg < 0x600"
    by (simp add: word_less_nat_alt word_le_nat_alt)
  then have r2: "unat (reg + 2) = unat reg + 2"
    by (simp add: unat_word_ariths)
  have "unat (ucast (reg + 2) :: u16) = unat reg + 2"
    using r r2 by (simp add: unsigned_ucast_eq take_bit_eq_mod)
  moreover have "unat (ucast reg :: u16) = unat reg"
    using r by (simp add: unsigned_ucast_eq take_bit_eq_mod)
  ultimately show ?thesis by auto
qed

lemma write_narrow:
  "reg < 0x100 \<or> reg \<ge> 0x600 \<Longrightarrow> tc358768_write reg val b = regmap_write reg val b"
  by (simp add: tc358768_write_def)

lemma read_narrow:
  "reg < 0x100 \<or> reg \<ge> 0x600 \<Longrightarrow> tc358768_read reg b = regmap_read reg b"
  by (simp add: tc358768_read_def)

lemma write_wide_ok:
  assumes "\<not> (reg < 0x100 \<or> reg \<ge> 0x600)" and "next_rc b = 0"
  shows "tc358768_write reg val b =
           regmap_write (reg + 2) (drop_bit 16 val) (snd (regmap_write reg val b))"
  using assms regmap_write_fst [of reg val b]
  by (auto simp: tc358768_write_def split: prod.splits)

lemma write_wide_fail:
  assumes "\<not> (reg < 0x100 \<or> reg \<ge> 0x600)" and "next_rc b \<noteq> 0"
  shows "tc358768_write reg val b = regmap_write reg val b"
  using assms regmap_write_fst [of reg val b]
  by (auto simp: tc358768_write_def split: prod.splits)

lemma read_wide_ok:
  assumes "\<not> (reg < 0x100 \<or> reg \<ge> 0x600)" and "next_rc b = 0"
    and "next_rc (snd (regmap_read reg b)) = 0"
  shows "tc358768_read reg b =
           (Inr (ucast (regs b (ucast reg)) OR push_bit 16 (ucast (regs b (ucast (reg + 2))))),
            snd (regmap_read (reg + 2) (snd (regmap_read reg b))))"
proof -
  obtain r1 b1 where r1: "regmap_read reg b = (r1, b1)" by (cases "regmap_read reg b")
  obtain r2 b2 where r2: "regmap_read (reg + 2) b1 = (r2, b2)" by (cases "regmap_read (reg + 2) b1")
  from r1 assms(2) regmap_read_fst [of reg b]
  have v1: "r1 = Inr (ucast (regs b (ucast reg)))" by simp
  from r1 regmap_read_regs [of reg b] have g1: "regs b1 = regs b" by simp
  from r1 assms(3) have n1: "next_rc b1 = 0" by simp
  from r2 n1 g1 regmap_read_fst [of "reg + 2" b1]
  have v2: "r2 = Inr (ucast (regs b (ucast (reg + 2))))" by simp
  show ?thesis using assms(1) r1 r2 v1 v2 by (simp add: tc358768_read_def)
qed





lemma write_events:
  "\<exists>es. trace (snd (tc358768_write reg val b)) = trace b @ Bus_write reg val (next_rc b) # es
        \<and> list_all (is_write_to (reg + 2)) es \<and> length es \<le> 1
        \<and> (reg < 0x100 \<or> reg \<ge> 0x600 \<longrightarrow> es = [])"
proof -
  obtain r1 b1 where r1: "regmap_write reg val b = (r1, b1)" by (cases "regmap_write reg val b")
  from r1 regmap_write_trace [of reg val b]
  have t1: "trace b1 = trace b @ [Bus_write reg val (next_rc b)]" by simp
  have t2: "trace (snd (regmap_write (reg + 2) (drop_bit 16 val) b1)) =
              trace b1 @ [Bus_write (reg + 2) (drop_bit 16 val) (next_rc b1)]"
    by (rule regmap_write_trace)
  show ?thesis using r1 t1 t2
    by (auto simp: tc358768_write_def)
qed


section \<open>C7: dispatch by register width\<close>

lemma write_narrow_events:
  "reg < 0x100 \<or> reg \<ge> 0x600 \<Longrightarrow>
     new_events b (snd (tc358768_write reg val b)) = [Bus_write reg val (next_rc b)]"
  by (rule new_events_append) (simp add: write_narrow regmap_write_trace)

lemma read_narrow_events:
  "reg < 0x100 \<or> reg \<ge> 0x600 \<Longrightarrow>
     new_events b (snd (tc358768_read reg b)) =
       [Bus_read reg (if next_rc b = 0 then ucast (regs b (ucast reg)) else 0) (next_rc b)]"
  by (rule new_events_append) (simp add: read_narrow regmap_read_trace)

lemma write_wide_events:
  assumes w: "\<not> (reg < 0x100 \<or> reg \<ge> 0x600)" and ok: "no_bus_error b"
  shows "new_events b (snd (tc358768_write reg val b)) =
           [Bus_write reg val 0, Bus_write (reg + 2) (drop_bit 16 val) 0]"
    and "fst (tc358768_write reg val b) = 0"
    and "regs (snd (tc358768_write reg val b)) =
           (regs b)(ucast reg := ucast val, ucast (reg + 2) := ucast (drop_bit 16 val))"
    and "no_bus_error (snd (tc358768_write reg val b))"
proof -
  let ?b1 = "snd (regmap_write reg val b)"
  have n0: "next_rc b = 0" using ok by (rule next_rc_no_error)
  have ok1: "no_bus_error ?b1" using ok by (rule no_bus_error_regmap_write)
  then have n1: "next_rc ?b1 = 0" by (rule next_rc_no_error)
  have eq: "tc358768_write reg val b = regmap_write (reg + 2) (drop_bit 16 val) ?b1"
    using w n0 by (rule write_wide_ok)
  show "new_events b (snd (tc358768_write reg val b)) =
           [Bus_write reg val 0, Bus_write (reg + 2) (drop_bit 16 val) 0]"
    by (rule new_events_append) (simp add: eq regmap_write_trace n0 n1)
  show "fst (tc358768_write reg val b) = 0"
    by (simp add: eq regmap_write_fst n1)
  show "regs (snd (tc358768_write reg val b)) =
           (regs b)(ucast reg := ucast val, ucast (reg + 2) := ucast (drop_bit 16 val))"
    by (simp add: eq regmap_write_regs n0 n1)
  show "no_bus_error (snd (tc358768_write reg val b))"
    unfolding eq using ok1 by (rule no_bus_error_regmap_write)
qed

lemma read_wide_events:
  assumes w: "\<not> (reg < 0x100 \<or> reg \<ge> 0x600)" and ok: "no_bus_error b"
  shows "new_events b (snd (tc358768_read reg b)) =
           [Bus_read reg (ucast (regs b (ucast reg))) 0,
            Bus_read (reg + 2) (ucast (regs b (ucast (reg + 2)))) 0]"
    and "fst (tc358768_read reg b) =
           Inr (ucast (regs b (ucast reg)) OR push_bit 16 (ucast (regs b (ucast (reg + 2)))))"
proof -
  let ?b1 = "snd (regmap_read reg b)"
  have n0: "next_rc b = 0" using ok by (rule next_rc_no_error)
  have "no_bus_error ?b1" using ok by (rule no_bus_error_regmap_read)
  then have n1: "next_rc ?b1 = 0" by (rule next_rc_no_error)
  note eq = read_wide_ok [OF w n0 n1]
  show "new_events b (snd (tc358768_read reg b)) =
           [Bus_read reg (ucast (regs b (ucast reg))) 0,
            Bus_read (reg + 2) (ucast (regs b (ucast (reg + 2)))) 0]"
    by (rule new_events_append) (simp add: eq regmap_read_trace regmap_read_regs n0 n1)
  show "fst (tc358768_read reg b) =
           Inr (ucast (regs b (ucast reg)) OR push_bit 16 (ucast (regs b (ucast (reg + 2)))))"
    by (simp add: eq)
qed

lemma read_back_wide:
  assumes w: "\<not> (reg < 0x100 \<or> reg \<ge> 0x600)" and ok: "no_bus_error b"
  shows "fst (tc358768_read reg (snd (tc358768_write reg val b))) = Inr val"
proof -
  let ?b' = "snd (tc358768_write reg val b)"
  have ok': "no_bus_error ?b'" using w ok by (rule write_wide_events(4))
  have g: "regs ?b' = (regs b)(ucast reg := ucast val, ucast (reg + 2) := ucast (drop_bit 16 val))"
    using w ok by (rule write_wide_events(3))
  have d: "(ucast (reg + 2) :: u16) \<noteq> ucast reg" using w by (rule wide_addr_distinct)
  have lo: "regs ?b' (ucast reg) = ucast val" using d by (simp add: g)
  have hi: "regs ?b' (ucast (reg + 2)) = ucast (drop_bit 16 val)" by (simp add: g)
  show ?thesis
    by (simp add: read_wide_events(2) [OF w ok'] lo hi halves_join)
qed

text \<open>
  C7. A register below 0x100 or at or above 0x600 is written and read in one 16-bit
  transaction. Any other register is written in two, the value at the address (the bus takes
  its low 16 bits) and the value shifted right by 16 at the address plus 2, and read in two,
  joined as \<open>low | (high << 16)\<close>; on a bus without errors, reading a 32-bit register just
  written gives the written value back.
\<close>

theorem tc358768_width_dispatch:
  "(reg < 0x100 \<or> reg \<ge> 0x600 \<longrightarrow>
      new_events b (snd (tc358768_write reg val b)) = [Bus_write reg val (next_rc b)] \<and>
      new_events b (snd (tc358768_read reg b)) =
        [Bus_read reg (if next_rc b = 0 then ucast (regs b (ucast reg)) else 0) (next_rc b)])
   \<and> (\<not> (reg < 0x100 \<or> reg \<ge> 0x600) \<and> no_bus_error b \<longrightarrow>
      new_events b (snd (tc358768_write reg val b)) =
        [Bus_write reg val 0, Bus_write (reg + 2) (drop_bit 16 val) 0] \<and>
      regs (snd (tc358768_write reg val b)) =
        (regs b)(ucast reg := ucast val, ucast (reg + 2) := ucast (drop_bit 16 val)) \<and>
      new_events b (snd (tc358768_read reg b)) =
        [Bus_read reg (ucast (regs b (ucast reg))) 0,
         Bus_read (reg + 2) (ucast (regs b (ucast (reg + 2)))) 0] \<and>
      fst (tc358768_read reg b) =
        Inr (ucast (regs b (ucast reg)) OR push_bit 16 (ucast (regs b (ucast (reg + 2))))) \<and>
      fst (tc358768_read reg (snd (tc358768_write reg val b))) = Inr val)"
  using write_narrow_events [of reg b val] read_narrow_events [of reg b]
    write_wide_events(1) [of reg b val] write_wide_events(3) [of reg b val]
    read_wide_events [of reg b] read_back_wide [of reg b val]
  by blast

theorem tc358768_width_dispatch_witness:
  "new_events bus0 (snd (tc358768_write TC358768_CONFCTL 0x40 bus0)) =
     [Bus_write TC358768_CONFCTL 0x40 0]
   \<and> new_events bus0 (snd (tc358768_write TC358768_DSI_CONFW 0xa30000a7 bus0)) =
     [Bus_write 0x500 0xa30000a7 0, Bus_write 0x502 0xa300 0]
   \<and> fst (tc358768_read TC358768_DSI_CONFW
            (snd (tc358768_write TC358768_DSI_CONFW 0xa30000a7 bus0))) = Inr 0xa30000a7"
  using tc358768_width_dispatch [where reg = TC358768_CONFCTL and val = "0x40" and b = bus0]
    tc358768_width_dispatch [where reg = TC358768_DSI_CONFW and val = "0xa30000a7" and b = bus0]
  by (simp add: bus0_def no_bus_error_def next_rc_def reg_defs)


section \<open>C8: read-modify-write\<close>








section \<open>C10: teardown\<close>

text \<open>What a discarded \<open>update_bits\<close> on a 16-bit register does, spelled out.\<close>

lemma upd_narrow:
  assumes n: "reg < 0x100 \<or> reg \<ge> 0x600"
  shows "upd reg msk val b =
           (let b1 = snd (regmap_read reg b);
                orig = (ucast (regs b (ucast reg)) :: u32);
                tmp = (orig AND NOT msk) OR (val AND msk)
            in if next_rc b \<noteq> 0 \<or> tmp = orig then b1
               else snd (regmap_write reg tmp b1))"
proof -
  obtain r b1 where r: "regmap_read reg b = (r, b1)" by (cases "regmap_read reg b")
  from r regmap_read_fst [of reg b]
  have rv: "r = (if next_rc b = 0 then Inr (ucast (regs b (ucast reg))) else Inl (next_rc b))"
    by simp
  show ?thesis
    using n r rv
    by (simp add: upd_def tc358768_update_bits_def read_narrow write_narrow Let_def)
qed

lemma ucast_u16_u32_u16: "(ucast (ucast (r :: u16) :: u32) :: u16) = r"
  by (rule bit_word_eqI) (auto simp: bit_simps)

lemma ucast_rmw_frame:
  "(ucast (((ucast (r :: u16) :: u32) AND NOT msk) OR (val AND msk)) :: u16) AND NOT (ucast msk)
     = r AND NOT (ucast msk)"
  by (rule bit_word_eqI) (auto simp: bit_simps)

lemma upd_narrow_regs:
  assumes n: "reg < 0x100 \<or> reg \<ge> 0x600"
  shows "a \<noteq> ucast reg \<Longrightarrow> regs (upd reg msk val b) a = regs b a"
    and "regs (upd reg msk val b) (ucast reg) AND NOT (ucast msk)
           = regs b (ucast reg) AND NOT (ucast msk)"
  by (simp_all add: upd_narrow [OF n] Let_def regmap_read_regs regmap_write_regs ucast_rmw_frame)

lemma upd_narrow_trace:
  assumes n: "reg < 0x100 \<or> reg \<ge> 0x600"
  shows "\<exists>v rc es. trace (upd reg msk val b) = trace b @ Bus_read reg v rc # es
           \<and> list_all (is_write_to reg) es"
  by (simp add: upd_narrow [OF n] Let_def regmap_read_trace regmap_write_trace)

lemma upd_narrow_ok:
  assumes n: "reg < 0x100 \<or> reg \<ge> 0x600" and ok: "no_bus_error b"
  shows "no_bus_error (upd reg msk val b)"
    and "regs (upd reg msk val b) =
           (regs b)(ucast reg := ucast ((ucast (regs b (ucast reg)) AND NOT msk) OR (val AND msk)))"
    and "trace (upd reg msk val b) =
           trace b @ Bus_read reg (ucast (regs b (ucast reg))) 0 #
             (if (ucast (regs b (ucast reg)) AND NOT msk) OR (val AND msk) = ucast (regs b (ucast reg))
              then []
              else [Bus_write reg ((ucast (regs b (ucast reg)) AND NOT msk) OR (val AND msk)) 0])"
proof -
  let ?b1 = "snd (regmap_read reg b)"
  have n0: "next_rc b = 0" using ok by (rule next_rc_no_error)
  have ok1: "no_bus_error ?b1" using ok by (rule no_bus_error_regmap_read)
  then have n1: "next_rc ?b1 = 0" by (rule next_rc_no_error)
  show "no_bus_error (upd reg msk val b)"
    using ok1 by (simp add: upd_narrow [OF n] Let_def n0 no_bus_error_regmap_write)
  have same: "(ucast (regs b (ucast reg)) AND NOT msk) OR (val AND msk) = (ucast (regs b (ucast reg)) :: u32)
      \<Longrightarrow> (ucast ((ucast (regs b (ucast reg)) AND NOT msk) OR (val AND msk)) :: u16) = regs b (ucast reg)"
    by (simp add: ucast_u16_u32_u16)
  show "regs (upd reg msk val b) =
           (regs b)(ucast reg := ucast ((ucast (regs b (ucast reg)) AND NOT msk) OR (val AND msk)))"
    using same
    by (auto simp add: upd_narrow [OF n] Let_def n0 n1 regmap_read_regs regmap_write_regs)
  show "trace (upd reg msk val b) =
           trace b @ Bus_read reg (ucast (regs b (ucast reg))) 0 #
             (if (ucast (regs b (ucast reg)) AND NOT msk) OR (val AND msk) = ucast (regs b (ucast reg))
              then []
              else [Bus_write reg ((ucast (regs b (ucast reg)) AND NOT msk) OR (val AND msk)) 0])"
    by (simp add: upd_narrow [OF n] Let_def n0 n1 regmap_read_trace regmap_write_trace)
qed


lemma power_off_unfold:
  "tc358768_power_off b =
     upd TC358768_PP_MISC 0x4000 0x4000
       (upd TC358768_CONFCTL 0x40 0
          (msleep 50 (upd TC358768_PP_MISC 0x8000 0x8000 b)))"
  by (simp add: tc358768_power_off_def)

lemma msleep_simps:
  "regs (msleep ms b) = regs b" "errs (msleep ms b) = errs b"
  "trace (msleep ms b) = trace b @ [Msleep ms]"
  "no_bus_error (msleep ms b) = no_bus_error b"
  by (simp_all add: msleep_def no_bus_error_def)

lemma narrow_PP_MISC: "TC358768_PP_MISC < 0x100 \<or> TC358768_PP_MISC \<ge> 0x600"
  by (simp add: reg_defs)

lemma narrow_CONFCTL: "TC358768_CONFCTL < 0x100 \<or> TC358768_CONFCTL \<ge> 0x600"
  by (simp add: reg_defs)

lemma ucast_PP_MISC: "(ucast TC358768_PP_MISC :: u16) = 0x0032"
  by (simp add: reg_defs)

lemma ucast_CONFCTL: "(ucast TC358768_CONFCTL :: u16) = 0x0004"
  by (simp add: reg_defs)

lemma not_c000: "NOT (0xC000 :: u16) = NOT 0x8000 AND NOT 0x4000" by simp

lemma and_not_c000_1: "x AND NOT (0xC000 :: u16) = (x AND NOT 0x8000) AND NOT 0x4000"
  by (simp only: not_c000 and.assoc)

lemma and_not_c000_2: "x AND NOT (0xC000 :: u16) = (x AND NOT 0x4000) AND NOT 0x8000"
  by (simp only: not_c000 and.assoc and.commute [of "NOT 0x8000" "NOT 0x4000"])

lemma power_off_regs_any:
  "a \<noteq> 0x0032 \<Longrightarrow> a \<noteq> 0x0004 \<Longrightarrow> regs (tc358768_power_off b) a = regs b a"
  "regs (tc358768_power_off b) 0x0032 AND NOT 0xC000 = regs b 0x0032 AND NOT 0xC000"
  "regs (tc358768_power_off b) 0x0004 AND NOT 0x0040 = regs b 0x0004 AND NOT 0x0040"
proof -
  let ?b1 = "upd TC358768_PP_MISC 0x8000 0x8000 b"
  let ?b2 = "msleep 50 ?b1"
  let ?b3 = "upd TC358768_CONFCTL 0x40 0 ?b2"
  let ?b4 = "upd TC358768_PP_MISC 0x4000 0x4000 ?b3"
  have e: "tc358768_power_off b = ?b4" by (rule power_off_unfold)
  note m = upd_narrow_regs [OF narrow_PP_MISC] and c = upd_narrow_regs [OF narrow_CONFCTL]
  have m1: "regs ?b1 0x0032 AND NOT 0x8000 = regs b 0x0032 AND NOT 0x8000"
    using m(2) [of "0x8000" "0x8000" b] by (simp add: ucast_PP_MISC)
  have m3: "regs ?b3 0x0032 = regs ?b1 0x0032"
    using c(1) [of "0x0032" "0x40" 0 ?b2] by (simp add: msleep_simps ucast_CONFCTL)
  have m4: "regs ?b4 0x0032 AND NOT 0x4000 = regs ?b3 0x0032 AND NOT 0x4000"
    using m(2) [of "0x4000" "0x4000" ?b3] by (simp add: ucast_PP_MISC)
  show "regs (tc358768_power_off b) 0x0032 AND NOT 0xC000 = regs b 0x0032 AND NOT 0xC000"
    unfolding e
    by (metis and_not_c000_1 and_not_c000_2 m1 m3 m4)
  have c1: "regs ?b1 0x0004 = regs b 0x0004"
    using m(1) [of "0x0004" "0x8000" "0x8000" b] by (simp add: ucast_PP_MISC)
  have c3: "regs ?b3 0x0004 AND NOT 0x0040 = regs ?b2 0x0004 AND NOT 0x0040"
    using c(2) [of "0x40" 0 ?b2] by (simp add: ucast_CONFCTL)
  have c4: "regs ?b4 0x0004 = regs ?b3 0x0004"
    using m(1) [of "0x0004" "0x4000" "0x4000" ?b3] by (simp add: ucast_PP_MISC)
  show "regs (tc358768_power_off b) 0x0004 AND NOT 0x0040 = regs b 0x0004 AND NOT 0x0040"
    unfolding e using c3 c1 by (simp add: c4 msleep_simps)
  assume a: "a \<noteq> 0x0032" "a \<noteq> 0x0004"
  have "regs ?b4 a = regs ?b3 a"
    using m(1) [of a "0x4000" "0x4000" ?b3] a by (simp add: ucast_PP_MISC)
  also have "\<dots> = regs ?b2 a"
    using c(1) [of a "0x40" 0 ?b2] a by (simp add: ucast_CONFCTL)
  also have "\<dots> = regs ?b1 a" by (simp add: msleep_simps)
  also have "\<dots> = regs b a"
    using m(1) [of a "0x8000" "0x8000" b] a by (simp add: ucast_PP_MISC)
  finally show "regs (tc358768_power_off b) a = regs b a" unfolding e .
qed

lemma power_off_events_any:
  "map request_of (filter (\<lambda>e. \<not> is_write e) (new_events b (tc358768_power_off b))) =
     [Read_req TC358768_PP_MISC, Msleep_req 50, Read_req TC358768_CONFCTL,
      Read_req TC358768_PP_MISC]"
  "list_all (\<lambda>e. is_write e \<longrightarrow> is_write_to TC358768_PP_MISC e \<or> is_write_to TC358768_CONFCTL e)
     (new_events b (tc358768_power_off b))"
proof -
  let ?b1 = "upd TC358768_PP_MISC 0x8000 0x8000 b"
  let ?b2 = "msleep 50 ?b1"
  let ?b3 = "upd TC358768_CONFCTL 0x40 0 ?b2"
  let ?b4 = "upd TC358768_PP_MISC 0x4000 0x4000 ?b3"
  have e: "tc358768_power_off b = ?b4" by (rule power_off_unfold)
  obtain v1 rc1 es1 where t1: "trace ?b1 = trace b @ Bus_read TC358768_PP_MISC v1 rc1 # es1"
    and w1: "list_all (is_write_to TC358768_PP_MISC) es1"
    using upd_narrow_trace [OF narrow_PP_MISC, of "0x8000" "0x8000" b] by blast
  obtain v3 rc3 es3 where t3: "trace ?b3 = trace ?b2 @ Bus_read TC358768_CONFCTL v3 rc3 # es3"
    and w3: "list_all (is_write_to TC358768_CONFCTL) es3"
    using upd_narrow_trace [OF narrow_CONFCTL, of "0x40" 0 ?b2] by blast
  obtain v4 rc4 es4 where t4: "trace ?b4 = trace ?b3 @ Bus_read TC358768_PP_MISC v4 rc4 # es4"
    and w4: "list_all (is_write_to TC358768_PP_MISC) es4"
    using upd_narrow_trace [OF narrow_PP_MISC, of "0x4000" "0x4000" ?b3] by blast
  have wr: "\<And>a es. list_all (is_write_to a) es \<Longrightarrow> filter (\<lambda>e. \<not> is_write e) es = []"
  proof -
    fix a es show "list_all (is_write_to a) es \<Longrightarrow> filter (\<lambda>e. \<not> is_write e) es = []"
      by (induction es) (auto elim: is_write_to.elims)
  qed
  have ww: "\<And>a es. list_all (is_write_to a) es \<Longrightarrow> a = TC358768_PP_MISC \<or> a = TC358768_CONFCTL \<Longrightarrow>
     list_all (\<lambda>e. is_write e \<longrightarrow> is_write_to TC358768_PP_MISC e \<or> is_write_to TC358768_CONFCTL e) es"
  proof -
    fix a es show "list_all (is_write_to a) es \<Longrightarrow> a = TC358768_PP_MISC \<or> a = TC358768_CONFCTL \<Longrightarrow>
     list_all (\<lambda>e. is_write e \<longrightarrow> is_write_to TC358768_PP_MISC e \<or> is_write_to TC358768_CONFCTL e) es"
      by (induction es) auto
  qed
  have tr: "trace ?b4 = trace b @ (Bus_read TC358768_PP_MISC v1 rc1 # es1 @ Msleep 50 #
              Bus_read TC358768_CONFCTL v3 rc3 # es3 @ Bus_read TC358768_PP_MISC v4 rc4 # es4)"
    by (simp add: t4 t3 msleep_simps t1)
  have ne: "new_events b (tc358768_power_off b) = Bus_read TC358768_PP_MISC v1 rc1 # es1 @ Msleep 50 #
              Bus_read TC358768_CONFCTL v3 rc3 # es3 @ Bus_read TC358768_PP_MISC v4 rc4 # es4"
    unfolding e using tr by (rule new_events_append)
  show "map request_of (filter (\<lambda>e. \<not> is_write e) (new_events b (tc358768_power_off b))) =
     [Read_req TC358768_PP_MISC, Msleep_req 50, Read_req TC358768_CONFCTL,
      Read_req TC358768_PP_MISC]"
    by (simp add: ne wr [OF w1] wr [OF w3] wr [OF w4])
  show "list_all (\<lambda>e. is_write e \<longrightarrow> is_write_to TC358768_PP_MISC e \<or> is_write_to TC358768_CONFCTL e)
     (new_events b (tc358768_power_off b))"
    using ww [OF w1] ww [OF w3] ww [OF w4] by (simp add: ne)
qed


lemma rmw_set_u16:
  "(ucast (((ucast (r :: u16) :: u32) AND NOT k) OR (k AND k)) :: u16) = r OR ucast k"
  by (rule bit_word_eqI) (auto simp: bit_simps)

lemma rmw_clear_u16:
  "(ucast (((ucast (r :: u16) :: u32) AND NOT k) OR (0 AND k)) :: u16) = r AND NOT (ucast k)"
  by (rule bit_word_eqI) (auto simp: bit_simps)

lemma or_8000_4000: "(x OR 0x8000) OR 0x4000 = x OR (0xC000 :: 'a::len word)"
proof -
  have "(0x8000 :: 'a word) OR 0x4000 = 0xC000" by simp
  then show ?thesis by (simp only: or.assoc)
qed

lemma set_bits_word: "(r AND NOT k) OR (k AND k) = r OR (k :: 'a::len word)"
  by (rule bit_word_eqI) (auto simp: bit_simps)

lemma ucast_or_u16: "(ucast ((r :: u16) OR k) :: u32) = ucast r OR ucast k"
  by (rule bit_word_eqI) (auto simp: bit_simps)

lemma power_off_ok:
  assumes ok: "no_bus_error b"
  shows "regs (tc358768_power_off b) =
           (regs b)(0x0032 := regs b 0x0032 OR 0xC000, 0x0004 := regs b 0x0004 AND NOT 0x0040)"
    and "new_events b (tc358768_power_off b) =
           Bus_read TC358768_PP_MISC (ucast (regs b 0x0032)) 0 #
           (if ucast (regs b 0x0032) OR 0x8000 = (ucast (regs b 0x0032) :: u32) then []
            else [Bus_write TC358768_PP_MISC (ucast (regs b 0x0032) OR 0x8000) 0]) @
           [Msleep 50, Bus_read TC358768_CONFCTL (ucast (regs b 0x0004)) 0] @
           (if ucast (regs b 0x0004) AND NOT 0x0040 = (ucast (regs b 0x0004) :: u32) then []
            else [Bus_write TC358768_CONFCTL (ucast (regs b 0x0004) AND NOT 0x0040) 0]) @
           Bus_read TC358768_PP_MISC (ucast (regs b 0x0032) OR 0x8000) 0 #
           (if ucast (regs b 0x0032) OR 0xC000 = (ucast (regs b 0x0032) OR 0x8000 :: u32) then []
            else [Bus_write TC358768_PP_MISC (ucast (regs b 0x0032) OR 0xC000) 0])"
proof -
  let ?b1 = "upd TC358768_PP_MISC 0x8000 0x8000 b"
  let ?b2 = "msleep 50 ?b1"
  let ?b3 = "upd TC358768_CONFCTL 0x40 0 ?b2"
  let ?b4 = "upd TC358768_PP_MISC 0x4000 0x4000 ?b3"
  let ?m = "ucast (regs b 0x0032) :: u32"
  let ?c = "ucast (regs b 0x0004) :: u32"
  have e: "tc358768_power_off b = ?b4" by (rule power_off_unfold)
  note m = upd_narrow_ok [OF narrow_PP_MISC] and c = upd_narrow_ok [OF narrow_CONFCTL]
  have ok1: "no_bus_error ?b1" using ok by (rule m(1))
  then have ok2: "no_bus_error ?b2" by (simp add: msleep_simps)
  then have ok3: "no_bus_error ?b3" by (rule c(1))
  have g1: "regs ?b1 = (regs b)(0x0032 := regs b 0x0032 OR 0x8000)"
    using m(2) [OF ok, of "0x8000" "0x8000"] rmw_set_u16 [of "regs b 0x0032" "0x8000"]
    by (simp add: ucast_PP_MISC)
  have g3: "regs ?b3 = (regs ?b1)(0x0004 := regs ?b1 0x0004 AND NOT 0x0040)"
    using c(2) [OF ok2, of "0x40" 0] rmw_clear_u16 [of "regs ?b1 0x0004" "0x40"]
    by (simp add: ucast_CONFCTL msleep_simps)
  have g4: "regs ?b4 = (regs ?b3)(0x0032 := regs ?b3 0x0032 OR 0x4000)"
    using m(2) [OF ok3, of "0x4000" "0x4000"] rmw_set_u16 [of "regs ?b3 0x0032" "0x4000"]
    by (simp add: ucast_PP_MISC)
  have or2: "(regs b 0x0032 OR 0x8000) OR 0x4000 = regs b 0x0032 OR 0xC000"
    by (rule or_8000_4000)
  show "regs (tc358768_power_off b) =
           (regs b)(0x0032 := regs b 0x0032 OR 0xC000, 0x0004 := regs b 0x0004 AND NOT 0x0040)"
    unfolding e using or2 by (auto simp: g4 g3 g1 fun_eq_iff)
  have t1: "trace ?b1 = trace b @ Bus_read TC358768_PP_MISC ?m 0 #
              (if ?m OR 0x8000 = ?m then [] else [Bus_write TC358768_PP_MISC (?m OR 0x8000) 0])"
    using m(3) [OF ok, of "0x8000" "0x8000"] set_bits_word [of ?m "0x8000"]
    by (simp add: ucast_PP_MISC)
  have c2: "regs ?b2 0x0004 = regs b 0x0004" by (simp add: msleep_simps g1)
  have t3: "trace ?b3 = trace ?b2 @ Bus_read TC358768_CONFCTL ?c 0 #
              (if ?c AND NOT 0x0040 = ?c then [] else [Bus_write TC358768_CONFCTL (?c AND NOT 0x0040) 0])"
    using c(3) [OF ok2, of "0x40" 0]
    by (simp add: ucast_CONFCTL c2)
  have m3: "(ucast (regs ?b3 0x0032) :: u32) = ?m OR 0x8000"
    by (simp add: g3 g1 ucast_or_u16)
  have or3: "(?m OR 0x8000) OR 0x4000 = ?m OR 0xC000"
    by (rule or_8000_4000)
  have t4: "trace ?b4 = trace ?b3 @ Bus_read TC358768_PP_MISC (?m OR 0x8000) 0 #
              (if ?m OR 0xC000 = ?m OR 0x8000 then [] else [Bus_write TC358768_PP_MISC (?m OR 0xC000) 0])"
    using m(3) [OF ok3, of "0x4000" "0x4000"] or3 set_bits_word [of "?m OR 0x8000" "0x4000"]
    by (simp add: ucast_PP_MISC m3)
  show "new_events b (tc358768_power_off b) =
           Bus_read TC358768_PP_MISC ?m 0 #
           (if ?m OR 0x8000 = ?m then []
            else [Bus_write TC358768_PP_MISC (?m OR 0x8000) 0]) @
           [Msleep 50, Bus_read TC358768_CONFCTL ?c 0] @
           (if ?c AND NOT 0x0040 = ?c then []
            else [Bus_write TC358768_CONFCTL (?c AND NOT 0x0040) 0]) @
           Bus_read TC358768_PP_MISC (?m OR 0x8000) 0 #
           (if ?m OR 0xC000 = ?m OR 0x8000 then []
            else [Bus_write TC358768_PP_MISC (?m OR 0xC000) 0])"
    unfolding e
    by (rule new_events_append) (simp add: t4 t3 msleep_simps t1)
qed


text \<open>
  C10. Teardown leaves every register other than PP_MISC (0x0032) and CONFCTL (0x0004) as
  it was, and in those two every bit other than bits 15 and 14 of PP_MISC and bit 6 of
  CONFCTL, whatever the bus returns. Its three read-modify-writes start in the order
  PP_MISC, (sleep of 50 ms), CONFCTL, PP_MISC, and nothing else is written. On a bus
  without errors PP_MISC ends with bits 15 and 14 set and CONFCTL with bit 6 clear, by the
  transactions listed: frame-stop set, pixel-pipe enable cleared, pointer-reset set, each
  write left out when the bit already has its value.
\<close>

theorem tc358768_power_off_frame:
  "(\<forall>a. a \<noteq> 0x0032 \<and> a \<noteq> 0x0004 \<longrightarrow> regs (tc358768_power_off b) a = regs b a)
   \<and> regs (tc358768_power_off b) 0x0032 AND NOT 0xC000 = regs b 0x0032 AND NOT 0xC000
   \<and> regs (tc358768_power_off b) 0x0004 AND NOT 0x0040 = regs b 0x0004 AND NOT 0x0040
   \<and> map request_of (filter (\<lambda>e. \<not> is_write e) (new_events b (tc358768_power_off b))) =
        [Read_req TC358768_PP_MISC, Msleep_req 50, Read_req TC358768_CONFCTL,
         Read_req TC358768_PP_MISC]
   \<and> list_all (\<lambda>e. is_write e \<longrightarrow>
                   is_write_to TC358768_PP_MISC e \<or> is_write_to TC358768_CONFCTL e)
        (new_events b (tc358768_power_off b))
   \<and> (no_bus_error b \<longrightarrow>
        regs (tc358768_power_off b) =
          (regs b)(0x0032 := regs b 0x0032 OR 0xC000, 0x0004 := regs b 0x0004 AND NOT 0x0040)
        \<and> new_events b (tc358768_power_off b) =
           Bus_read TC358768_PP_MISC (ucast (regs b 0x0032)) 0 #
           (if ucast (regs b 0x0032) OR 0x8000 = (ucast (regs b 0x0032) :: u32) then []
            else [Bus_write TC358768_PP_MISC (ucast (regs b 0x0032) OR 0x8000) 0]) @
           [Msleep 50, Bus_read TC358768_CONFCTL (ucast (regs b 0x0004)) 0] @
           (if ucast (regs b 0x0004) AND NOT 0x0040 = (ucast (regs b 0x0004) :: u32) then []
            else [Bus_write TC358768_CONFCTL (ucast (regs b 0x0004) AND NOT 0x0040) 0]) @
           Bus_read TC358768_PP_MISC (ucast (regs b 0x0032) OR 0x8000) 0 #
           (if ucast (regs b 0x0032) OR 0xC000 = (ucast (regs b 0x0032) OR 0x8000 :: u32) then []
            else [Bus_write TC358768_PP_MISC (ucast (regs b 0x0032) OR 0xC000) 0]))"
  using power_off_regs_any(1) [of _ b] power_off_regs_any(2,3) [of b]
    power_off_events_any [of b] power_off_ok [of b]
  by blast

theorem tc358768_power_off_frame_witness:
  "regs (tc358768_power_off bus_streaming) = (\<lambda>_. 0)(0x0032 := 0xC000, 0x0004 := 0)
   \<and> new_events bus_streaming (tc358768_power_off bus_streaming) =
       [Bus_read TC358768_PP_MISC 0 0, Bus_write TC358768_PP_MISC 0x8000 0, Msleep 50,
        Bus_read TC358768_CONFCTL 0x40 0, Bus_write TC358768_CONFCTL 0 0,
        Bus_read TC358768_PP_MISC 0x8000 0, Bus_write TC358768_PP_MISC 0xC000 0]
   \<and> regs (tc358768_power_off bus_streaming) 0x0008 = regs bus_streaming 0x0008"
proof -
  have ok: "no_bus_error bus_streaming"
    by (simp add: bus_streaming_def bus0_def no_bus_error_def)
  have r: "regs bus_streaming = (\<lambda>_. 0)(0x0004 := 0x0040)"
    by (simp add: bus_streaming_def bus0_def)
  note t = tc358768_power_off_frame [of bus_streaming]
  from t ok show ?thesis
    unfolding r by (simp add: fun_eq_iff)
qed


section \<open>C3: bracket selection\<close>

lemma find_frs_unfold:
  "find_frs 0 t =
     (if t < 1000000000 \<and> t \<ge> 500000000 then Some (0, 1000000000, 500000000)
      else if t < 500000000 \<and> t \<ge> 250000000 then Some (1, 500000000, 250000000)
      else if t < 250000000 \<and> t \<ge> 125000000 then Some (2, 250000000, 125000000)
      else if t < 125000000 \<and> t \<ge> 62500000 then Some (3, 125000000, 62500000)
      else None)"
proof -
  have l: "length frs_limits = 5" by (simp add: frs_limits_def)
  have n: "frs_limits ! 0 = 1000000000" "frs_limits ! 1 = 500000000"
    "frs_limits ! 2 = 250000000" "frs_limits ! 3 = 125000000" "frs_limits ! 4 = 62500000"
    by (simp_all add: frs_limits_def)
  have s4: "find_frs 4 t = None"
    by (subst find_frs.simps) (simp add: l)
  have s3: "find_frs 3 t = (if t < 125000000 \<and> t \<ge> 62500000 then Some (3, 125000000, 62500000) else None)"
    by (subst find_frs.simps) (simp add: l n s4)
  have s2: "find_frs 2 t = (if t < 250000000 \<and> t \<ge> 125000000 then Some (2, 250000000, 125000000)
                            else find_frs 3 t)"
    by (subst find_frs.simps) (simp add: l n)
  have two: "find_frs (Suc (Suc 0)) t = find_frs 2 t"
    by (simp add: numeral_2_eq_2)
  have s1: "find_frs (Suc 0) t = (if t < 500000000 \<and> t \<ge> 250000000 then Some (1, 500000000, 250000000)
                            else find_frs 2 t)"
    by (subst find_frs.simps) (simp add: l two frs_limits_def)
  have s0: "find_frs 0 t = (if t < 1000000000 \<and> t \<ge> 500000000 then Some (0, 1000000000, 500000000)
                            else find_frs (Suc 0) t)"
    by (subst find_frs.simps) (simp add: l frs_limits_def)
  show ?thesis by (simp only: s0 s1 s2 s3)
qed

lemma u32_small_cases:
  assumes "unat (i :: u32) < 4"
  shows "i = 0 \<or> i = 1 \<or> i = 2 \<or> i = 3"
proof -
  from assms have "unat i = 0 \<or> unat i = 1 \<or> unat i = 2 \<or> unat i = 3" by arith
  then show ?thesis by (auto simp: word_unat_eq_iff)
qed

lemma find_frs_Some:
  "find_frs 0 t = Some (i, mx, mn) \<longleftrightarrow>
     unat i < 4 \<and> mx = frs_limits ! unat i \<and> mn = frs_limits ! (unat i + 1) \<and> mn \<le> t \<and> t < mx"
proof
  assume "find_frs 0 t = Some (i, mx, mn)"
  then show "unat i < 4 \<and> mx = frs_limits ! unat i \<and> mn = frs_limits ! (unat i + 1) \<and> mn \<le> t \<and> t < mx"
    by (auto simp: find_frs_unfold frs_limits_def word_less_nat_alt word_le_nat_alt
             split: if_splits)
next
  assume a: "unat i < 4 \<and> mx = frs_limits ! unat i \<and> mn = frs_limits ! (unat i + 1) \<and> mn \<le> t \<and> t < mx"
  then have "i = 0 \<or> i = 1 \<or> i = 2 \<or> i = 3" by (simp add: u32_small_cases)
  with a show "find_frs 0 t = Some (i, mx, mn)"
    by (auto simp: find_frs_unfold frs_limits_def word_less_nat_alt word_le_nat_alt)
qed

lemma find_frs_None:
  "find_frs 0 t = None \<longleftrightarrow> t \<ge> 1000000000 \<or> t < 62500000"
  by (auto simp: find_frs_unfold word_less_nat_alt word_le_nat_alt)


lemma calc_pll_OutOfRange:
  assumes "tc358768_pclk_to_pll d = Some t"
  shows "tc358768_calc_pll d = Some (Inl OutOfRange) \<longleftrightarrow> t \<ge> 1000000000 \<or> t < 62500000"
proof -
  have "tc358768_calc_pll d = Some (Inl OutOfRange) \<longleftrightarrow> find_frs 0 t = None"
    using assms
    by (auto simp: tc358768_calc_pll_def split: option.splits prod.splits)
  then show ?thesis by (simp add: find_frs_None)
qed

lemma calc_pll_frs:
  assumes "tc358768_pclk_to_pll d = Some t" and "tc358768_calc_pll d = Some (Inr d')"
  shows "\<exists>mx mn. find_frs 0 t = Some (frs d', mx, mn)"
  using assms
  by (auto simp: tc358768_calc_pll_def split: option.splits prod.splits if_splits)

text \<open>
  C3. The bracket loop gives index \<open>i\<close> exactly when
  \<open>frs_limits[i + 1] \<le> t < frs_limits[i]\<close>, so a target of 500,000,000 gets index 0, the
  bracket from 500,000,000 up to 1,000,000,000. The solver fails with \<open>OutOfRange\<close>
  exactly for the targets at or above 1,000,000,000 or below 62,500,000, and a solution it
  returns carries the index of the bracket that holds the target.
\<close>

theorem calc_pll_bracket:
  "(find_frs 0 t = Some (i, mx, mn) \<longleftrightarrow>
      unat i < 4 \<and> mx = frs_limits ! unat i \<and> mn = frs_limits ! (unat i + 1)
      \<and> mn \<le> t \<and> t < mx)
   \<and> find_frs 0 500000000 = Some (0, 1000000000, 500000000)
   \<and> (tc358768_pclk_to_pll d = Some t \<longrightarrow>
        (tc358768_calc_pll d = Some (Inl OutOfRange) \<longleftrightarrow> t \<ge> 1000000000 \<or> t < 62500000)
        \<and> (\<forall>d'. tc358768_calc_pll d = Some (Inr d') \<longrightarrow>
              unat (frs d') < 4 \<and> frs_limits ! (unat (frs d') + 1) \<le> t
              \<and> t < frs_limits ! unat (frs d')))"
proof (intro conjI impI allI)
  show "find_frs 0 t = Some (i, mx, mn) \<longleftrightarrow>
      unat i < 4 \<and> mx = frs_limits ! unat i \<and> mn = frs_limits ! (unat i + 1)
      \<and> mn \<le> t \<and> t < mx"
    by (rule find_frs_Some)
  show "find_frs 0 500000000 = Some (0, 1000000000, 500000000)"
    by (simp add: find_frs_unfold)
next
  assume "tc358768_pclk_to_pll d = Some t"
  then show "tc358768_calc_pll d = Some (Inl OutOfRange) \<longleftrightarrow> t \<ge> 1000000000 \<or> t < 62500000"
    by (rule calc_pll_OutOfRange)
next
  fix d'
  assume t: "tc358768_pclk_to_pll d = Some t" and c: "tc358768_calc_pll d = Some (Inr d')"
  from calc_pll_frs [OF t c] obtain mx mn where f: "find_frs 0 t = Some (frs d', mx, mn)"
    by blast
  have "unat (frs d') < 4 \<and> mx = frs_limits ! unat (frs d')
      \<and> mn = frs_limits ! (unat (frs d') + 1) \<and> mn \<le> t \<and> t < mx"
    using f find_frs_Some [of t "frs d'" mx mn] by blast
  then show "unat (frs d') < 4" and "frs_limits ! (unat (frs d') + 1) \<le> t"
    and "t < frs_limits ! unat (frs d')"
    by blast+
qed

lemma pclk_to_pll_slow: "tc358768_pclk_to_pll ddata_slow = Some 60000000"
  by (simp add: tc358768_pclk_to_pll_def div_u64_def ddata_slow_def probe_ddata_def)

lemma pclk_to_pll_fast: "tc358768_pclk_to_pll ddata_fast = Some 1200000000"
  by (simp add: tc358768_pclk_to_pll_def div_u64_def ddata_fast_def probe_ddata_def)

theorem calc_pll_bracket_witness:
  "tc358768_calc_pll ddata_slow = Some (Inl OutOfRange)
   \<and> tc358768_calc_pll ddata_fast = Some (Inl OutOfRange)"
  using calc_pll_bracket [where d = ddata_slow and t = 60000000]
    calc_pll_bracket [where d = ddata_fast and t = 1200000000]
  by (simp add: pclk_to_pll_slow pclk_to_pll_fast)


section \<open>C5: round trip of the clock conversions\<close>

lemma u32_lt: "unat (x :: u32) < 2 ^ 32"
  using unsigned_less [of x] by simp

lemma unat_u32_u64: "unat (ucast (x :: u32) :: u64) = unat x"
proof -
  have "unat x < 2 ^ 64" using u32_lt [of x] by simp
  then show ?thesis by (simp add: unsigned_ucast_eq take_bit_nat_eq_self)
qed

lemma unat_u64_u32: "unat (ucast (x :: u64) :: u32) = unat x mod 2 ^ 32"
  by (simp add: unsigned_ucast_eq take_bit_eq_mod)

lemma unat_mul_u64: "unat ((ucast (x :: u32) :: u64) * ucast (y :: u32)) = unat x * unat y"
proof -
  have "unat x * unat y < 2 ^ 32 * 2 ^ 32"
    using u32_lt [of x] u32_lt [of y] by (intro mult_strict_mono) simp_all
  then have "unat (ucast x :: u64) * unat (ucast y :: u64) < 2 ^ LENGTH(64)"
    by (simp add: unat_u32_u64)
  then show ?thesis
    by (simp add: unat_mult_lem [THEN iffD1] unat_u32_u64)
qed

lemma unat_mult_exact:
  "unat x * unat y < 2 ^ LENGTH('a) \<Longrightarrow> unat (x * y) = unat x * unat (y :: 'a::len word)"
  by (simp add: unat_mult_lem)

text \<open>The forward transform without wrap-around.\<close>

lemma pclk_to_pll_exact:
  assumes b0: "dsi_ndl d \<noteq> 0" and b8: "8 * unat (dsi_ndl d) < 2 ^ 32"
    and q8: "unat (pixelclock d) * unat (dpi_ndl d) div (8 * unat (dsi_ndl d)) * 8 < 2 ^ 32"
  shows "\<exists>pll. tc358768_pclk_to_pll d = Some pll \<and>
           unat pll = unat (pixelclock d) * unat (dpi_ndl d) div (8 * unat (dsi_ndl d)) * 8"
proof -
  let ?p = "unat (pixelclock d)" and ?a = "unat (dpi_ndl d)" and ?b = "unat (dsi_ndl d)"
  let ?q = "?p * ?a div (8 * ?b)"
  have d8: "unat (8 * dsi_ndl d) = 8 * ?b"
    using b8 by (simp add: unat_word_ariths)
  have bpos: "0 < ?b" using b0 by (simp add: unat_gt_0)
  then have nz: "8 * dsi_ndl d \<noteq> 0"
    using d8 by (metis mult_is_0 not_less_zero unat_0 zero_neq_numeral)
  let ?q64 = "((ucast (pixelclock d) :: u64) * ucast (dpi_ndl d)) div ucast (8 * dsi_ndl d)"
  have q64: "unat ?q64 = ?q"
    by (simp add: unat_div unat_mul_u64 unat_u32_u64 d8)
  have qlt: "?q < 2 ^ 32" using q8 by simp
  have bc: "unat (ucast ?q64 :: u32) = ?q"
    using qlt by (simp add: unat_u64_u32 q64)
  have "unat ((ucast ?q64 :: u32) * 4 * 2) = ?q * 8"
    using q8 by (simp add: unat_word_ariths bc mult.assoc)
  then show ?thesis
    using nz by (simp add: tc358768_pclk_to_pll_def div_u64_def Let_def)
qed

text \<open>The inverse transform of a PLL frequency that is eight times a byte clock.\<close>

lemma pll_to_pclk_exact:
  assumes a0: "dpi_ndl d \<noteq> 0" and b8: "8 * unat (dsi_ndl d) < 2 ^ 32"
    and pll: "unat pll = q * 8" and r32: "q * 8 * unat (dsi_ndl d) div unat (dpi_ndl d) < 2 ^ 32"
  shows "\<exists>r. tc358768_pll_to_pclk d pll = Some r \<and>
           unat r = q * 8 * unat (dsi_ndl d) div unat (dpi_ndl d)"
proof -
  let ?a = "unat (dpi_ndl d)" and ?b = "unat (dsi_ndl d)"
  have q32: "q * 8 < 2 ^ 32" using pll u32_lt [of pll] by simp
  have bc: "unat (pll div 2 div 4) = q"
    using pll by (simp add: unat_div)
  have "q * (8 * ?b) < 2 ^ 32 * 2 ^ 32"
    using q32 b8 by (intro mult_strict_mono) simp_all
  then have lt: "q * 8 * ?b < 2 ^ 64" by (simp add: mult.assoc)
  have c1: "unat (ucast (pll div 2 div 4) :: u64) = q"
    by (simp only: unat_u32_u64 bc)
  have c2: "unat ((ucast (pll div 2 div 4) :: u64) * 8) = q * 8"
    using q32 by (subst unat_mult_exact) (simp_all add: c1)
  have "unat ((ucast (pll div 2 div 4) :: u64) * 8 * ucast (dsi_ndl d)) = q * 8 * ?b"
    using lt by (subst unat_mult_exact) (simp_all add: c2 unat_u32_u64)
  then have "unat (ucast (((ucast (pll div 2 div 4) :: u64) * 8 * ucast (dsi_ndl d))
                 div ucast (dpi_ndl d)) :: u32) = q * 8 * ?b div ?a"
    using r32 by (simp add: unat_u64_u32 unat_div unat_u32_u64)
  then show ?thesis
    using a0 by (simp add: tc358768_pll_to_pclk_def div_u64_def Let_def)
qed

text \<open>The two truncations in natural numbers.\<close>

lemma truncation_nat:
  fixes p a b :: nat
  assumes "0 < a" and "0 < b"
  shows "p * a div (8 * b) * 8 * b div a \<le> p"
    and "(p - p * a div (8 * b) * 8 * b div a) * a < 8 * b + a"
proof -
  let ?q = "p * a div (8 * b)"
  let ?r = "?q * 8 * b div a"
  have q1: "?q * (8 * b) \<le> p * a" by (rule div_times_less_eq_dividend)
  have q2: "p * a < ?q * (8 * b) + 8 * b"
    using assms(2) by (metis add.commute dividend_less_div_times mult.commute mult_pos_pos zero_less_numeral)
  have r1: "?r * a \<le> ?q * 8 * b" by (rule div_times_less_eq_dividend)
  have r2: "?q * 8 * b < ?r * a + a"
    using assms(1) by (metis add.commute dividend_less_div_times mult.commute)
  have e: "?q * 8 * b = ?q * (8 * b)" by (rule mult.assoc)
  have "?r * a \<le> p * a" using r1 q1 e by linarith
  then show "?r \<le> p" using assms(1) by (simp only: mult_le_cancel2)
  have "p * a < ?r * a + a + 8 * b" using q2 r2 e by linarith
  moreover have "x < y + a + 8 * b \<Longrightarrow> x - y < 8 * b + a" for x y :: nat
    using assms(1) by arith
  ultimately have "p * a - ?r * a < 8 * b + a" by blast
  then show "(p - ?r) * a < 8 * b + a"
    by (simp only: diff_mult_distrib)
qed


text \<open>
  C5, amended. With lane counts other than zero and no 32-bit wrap in the forward transform
  (\<open>8 * dsi_ndl\<close> and eight times the byte clock both fit 32 bits), the round trip returns a
  pixel clock \<open>r\<close> that is the two truncating divisions of the claim and lies within their
  error: \<open>r \<le> pixelclock\<close> and \<open>(pixelclock - r) * dpi_ndl < 8 * dsi_ndl + dpi_ndl\<close>.
\<close>

theorem pclk_roundtrip_bound:
  assumes a0: "dpi_ndl d \<noteq> 0" and b0: "dsi_ndl d \<noteq> 0"
    and b8: "8 * unat (dsi_ndl d) < 2 ^ 32"
    and q8: "unat (pixelclock d) * unat (dpi_ndl d) div (8 * unat (dsi_ndl d)) * 8 < 2 ^ 32"
  shows "\<exists>r. pclk_roundtrip d = Some r \<and>
           unat r = unat (pixelclock d) * unat (dpi_ndl d) div (8 * unat (dsi_ndl d))
                      * 8 * unat (dsi_ndl d) div unat (dpi_ndl d) \<and>
           truncation_bound d r"
proof -
  let ?p = "unat (pixelclock d)" and ?a = "unat (dpi_ndl d)" and ?b = "unat (dsi_ndl d)"
  let ?q = "?p * ?a div (8 * ?b)"
  have apos: "0 < ?a" using a0 by (simp add: unat_gt_0)
  have bpos: "0 < ?b" using b0 by (simp add: unat_gt_0)
  note tr = truncation_nat [OF apos bpos, of ?p]
  obtain pll where f: "tc358768_pclk_to_pll d = Some pll" and fv: "unat pll = ?q * 8"
    using pclk_to_pll_exact [OF b0 b8 q8] by blast
  have "?q * 8 * ?b div ?a \<le> ?p" by (rule tr(1))
  then have r32: "?q * 8 * ?b div ?a < 2 ^ 32"
    using u32_lt [of "pixelclock d"] by linarith
  obtain r where g: "tc358768_pll_to_pclk d pll = Some r" and gv: "unat r = ?q * 8 * ?b div ?a"
    using pll_to_pclk_exact [OF a0 b8 fv r32] by blast
  have "pclk_roundtrip d = Some r" by (simp add: pclk_roundtrip_def f g)
  moreover have "truncation_bound d r"
    unfolding truncation_bound_def gv using tr by blast
  ultimately show ?thesis using gv by blast
qed

theorem pclk_roundtrip_bound_witness:
  "pclk_roundtrip probe_ddata = Some 154900000 \<and> truncation_bound probe_ddata 154900000"
proof -
  have v: "pclk_roundtrip probe_ddata = Some 154900000"
    by (simp add: pclk_roundtrip_def tc358768_pclk_to_pll_def tc358768_pll_to_pclk_def
          div_u64_def probe_ddata_def)
  have "\<exists>r. pclk_roundtrip probe_ddata = Some r \<and>
           unat r = unat (pixelclock probe_ddata) * unat (dpi_ndl probe_ddata)
                      div (8 * unat (dsi_ndl probe_ddata))
                      * 8 * unat (dsi_ndl probe_ddata) div unat (dpi_ndl probe_ddata) \<and>
           truncation_bound probe_ddata r"
    by (rule pclk_roundtrip_bound) (simp_all add: probe_ddata_def)
  then show ?thesis using v by auto
qed

text \<open>
  C5 as stated fails: a pixel clock of 4,000,000,000 Hz with 24 and 4 lanes is a valid
  configuration, its byte clock is 3,000,000,000 Hz, and eight times that wraps in 32 bits.
  The round trip gives 420,860,586 Hz, far outside the truncation error.
\<close>

theorem pclk_roundtrip_counterexample:
  "0 < pixelclock ddata_4g \<and> 0 < dpi_ndl ddata_4g \<and> 0 < dsi_ndl ddata_4g
   \<and> pclk_roundtrip ddata_4g = Some 420860586
   \<and> \<not> truncation_bound ddata_4g 420860586"
  by (simp add: pclk_roundtrip_def tc358768_pclk_to_pll_def tc358768_pll_to_pclk_def
        div_u64_def truncation_bound_def ddata_4g_def probe_ddata_def)


section \<open>Requests of the write sequences\<close>

lemma wr_trace:
  "\<exists>es. trace (wr reg val b) = trace b @ Bus_write reg val (next_rc b) # es \<and>
        (es = [] \<or> (\<not> (reg < 0x100 \<or> reg \<ge> 0x600) \<and>
                     (\<exists>rc. es = [Bus_write (reg + 2) (drop_bit 16 val) rc])))"
proof -
  obtain r1 b1 where r1: "regmap_write reg val b = (r1, b1)" by (cases "regmap_write reg val b")
  from r1 regmap_write_trace [of reg val b]
  have t1: "trace b1 = trace b @ [Bus_write reg val (next_rc b)]" by simp
  have t2: "trace (snd (regmap_write (reg + 2) (drop_bit 16 val) b1)) =
              trace b1 @ [Bus_write (reg + 2) (drop_bit 16 val) (next_rc b1)]"
    by (rule regmap_write_trace)
  show ?thesis using r1 t1 t2
    by (auto simp: wr_def tc358768_write_def)
qed

lemma requests_wr:
  assumes "reg < 0x100 \<or> reg \<ge> 0x600 \<or> \<not> Q (Write_req (reg + 2) (drop_bit 16 val))"
  shows "filter Q (requests (wr reg val b)) = filter Q (requests b) @ filter Q [Write_req reg val]"
  using wr_trace [of reg val b] assms by (auto simp: requests_def)

lemma requests_upd:
  assumes "reg < 0x100 \<or> reg \<ge> 0x600" and "\<And>v. \<not> Q (Write_req reg v)"
  shows "filter Q (requests (upd reg msk val b)) = filter Q (requests b) @ filter Q [Read_req reg]"
proof -
  obtain v rc es where t: "trace (upd reg msk val b) = trace b @ Bus_read reg v rc # es"
    and w: "list_all (is_write_to reg) es"
    using upd_narrow_trace [OF assms(1), of msk val b] by blast
  have "filter Q (map request_of es) = []" using w
  proof (induction es)
    case Nil then show ?case by simp
  next
    case (Cons e es) then show ?case
      using assms(2) by (cases e) auto
  qed
  then show ?thesis by (simp add: requests_def t)
qed

lemma requests_usleep_range:
  "filter Q (requests (usleep_range mn mx b)) = filter Q (requests b) @ filter Q [Sleep_req mn mx]"
  by (simp add: requests_def usleep_range_def)

lemma requests_msleep:
  "filter Q (requests (msleep ms b)) = filter Q (requests b) @ filter Q [Msleep_req ms]"
  by (simp add: requests_def msleep_def)

lemma requests_gpiod:
  "filter Q (requests (gpiod_set_value_cansleep v b)) = filter Q (requests b) @ filter Q [Gpio_req v]"
  by (simp add: requests_def gpiod_set_value_cansleep_def)

text \<open>The writes of \<open>tc358768_power_on\<close> as one chain, when no division faults.\<close>

lemma power_on_Some:
  assumes "tc358768_power_on d b = Some b'"
  shows "\<exists>pclk hsw_v. tc358768_pll_to_pclk d (bitclk d * 2) = Some pclk \<and>
           dsi_hsw_value d = Some hsw_v \<and>
           tc358768_power_on d b = Some b'"
  using assms
  by (auto simp: tc358768_power_on_def tc358768_setup_pll_def Let_def split: option.splits)


section \<open>C6: the sync-width registers\<close>

lemma dsi_hsw_value_exact:
  assumes s: "unat (hsw d) + unat (hbp d) < 2 ^ 32"
    and m: "(unat (hsw d) + unat (hbp d)) * (unat (bitclk d) div 4) * unat (dsi_ndl d) < 2 ^ 64"
    and q: "(unat (hsw d) + unat (hbp d)) * (unat (bitclk d) div 4) * unat (dsi_ndl d)
              div unat (pixelclock d) < 2 ^ 32"
    and v: "dsi_hsw_value d = Some v"
  shows "unat v = (unat (hsw d) + unat (hbp d)) * (unat (bitclk d) div 4) * unat (dsi_ndl d)
                    div unat (pixelclock d)"
proof -
  let ?s = "unat (hsw d) + unat (hbp d)" and ?c = "unat (bitclk d) div 4"
  let ?n = "unat (dsi_ndl d)"
  have s1: "unat (ucast (hsw d + hbp d) :: u64) = ?s"
    using s by (simp add: unat_u32_u64 unat_word_ariths)
  have c1: "unat ((ucast (bitclk d) :: u64) div 4) = ?c"
    by (simp add: unat_div unat_u32_u64)
  have "?s * ?c \<le> ?s * ?c * ?n \<or> ?n = 0" by (cases ?n) simp_all
  then have sc: "?s * ?c < 2 ^ 64 \<or> ?n = 0" using m by linarith
  have p1: "unat ((ucast (hsw d + hbp d) :: u64) * ((ucast (bitclk d) :: u64) div 4)
                   * ucast (dsi_ndl d)) = ?s * ?c * ?n"
  proof (cases "?n = 0")
    case True
    then have "dsi_ndl d = 0" by (simp add: unat_eq_0)
    then show ?thesis by simp
  next
    case False
    with sc have sc': "?s * ?c < 2 ^ 64" by simp
    have p0: "unat ((ucast (hsw d + hbp d) :: u64) * ((ucast (bitclk d) :: u64) div 4)) = ?s * ?c"
      using sc' by (subst unat_mult_exact) (simp_all add: s1 c1)
    show ?thesis
      using m by (subst unat_mult_exact) (simp_all add: p0 unat_u32_u64)
  qed
  from v have nz: "pixelclock d \<noteq> 0"
    by (auto simp: dsi_hsw_value_def div_u64_def split: if_splits)
  from v nz have "v = ucast (((ucast (hsw d + hbp d) :: u64) * ((ucast (bitclk d) :: u64) div 4)
                   * ucast (dsi_ndl d)) div ucast (pixelclock d))"
    by (auto simp: dsi_hsw_value_def div_u64_def)
  then show ?thesis
    using q by (simp add: unat_u64_u32 unat_div p1 unat_u32_u64)
qed

lemma power_on_sync_writes:
  assumes "tc358768_power_on d b = Some b'"
  shows "\<exists>v. dsi_hsw_value d = Some v \<and>
           sync_width_writes b' = sync_width_writes b @
             [Write_req TC358768_DSI_VSW (vsw d + vbp d), Write_req TC358768_DSI_HSW v]"
  using assms
  by (auto simp: tc358768_power_on_def tc358768_setup_pll_def tc358768_sw_reset_def
        tc358768_dsi_xfer_short_def Let_def requests_wr requests_upd requests_usleep_range
        sync_width_writes_def reg_defs split: option.splits)

text \<open>
  C6, amended. Bring-up requests one write to the vertical and one to the horizontal
  sync-width register. The values are the code's machine arithmetic: \<open>vsw + vbp\<close> in 32
  bits, and \<open>dsi_hsw_value\<close>. They are the claim's \<open>vsw + vbp\<close> and
  \<open>(hsw + hbp) * (bitclk / 4) * dsi_ndl / pixelclock\<close> when no step wraps: the two sums
  fit 32 bits, the product fits 64 bits and the quotient fits 32 bits.
\<close>

theorem power_on_sync_width:
  assumes "tc358768_power_on d b = Some b'"
  shows "\<exists>v. dsi_hsw_value d = Some v \<and>
           sync_width_writes b' = sync_width_writes b @
             [Write_req TC358768_DSI_VSW (vsw d + vbp d), Write_req TC358768_DSI_HSW v] \<and>
           (unat (vsw d) + unat (vbp d) < 2 ^ 32 \<longrightarrow>
              unat (vsw d + vbp d) = unat (vsw d) + unat (vbp d)) \<and>
           (unat (hsw d) + unat (hbp d) < 2 ^ 32 \<and>
            (unat (hsw d) + unat (hbp d)) * (unat (bitclk d) div 4) * unat (dsi_ndl d) < 2 ^ 64 \<and>
            (unat (hsw d) + unat (hbp d)) * (unat (bitclk d) div 4) * unat (dsi_ndl d)
               div unat (pixelclock d) < 2 ^ 32 \<longrightarrow>
              unat v = (unat (hsw d) + unat (hbp d)) * (unat (bitclk d) div 4) * unat (dsi_ndl d)
                         div unat (pixelclock d))"
proof -
  obtain v where v: "dsi_hsw_value d = Some v"
    and w: "sync_width_writes b' = sync_width_writes b @
             [Write_req TC358768_DSI_VSW (vsw d + vbp d), Write_req TC358768_DSI_HSW v]"
    using power_on_sync_writes [OF assms] by blast
  have "unat (vsw d) + unat (vbp d) < 2 ^ 32 \<longrightarrow>
          unat (vsw d + vbp d) = unat (vsw d) + unat (vbp d)"
    by (simp add: unat_word_ariths)
  then show ?thesis
    using v w dsi_hsw_value_exact [of d v] by blast
qed

lemma requests_bus0: "requests bus0 = []"
  by (simp add: requests_def bus0_def)

lemma power_on_solved:
  "map_option sync_width_writes (tc358768_power_on ddata_solved bus0) =
     Some [Write_req TC358768_DSI_VSW 26, Write_req TC358768_DSI_HSW 183]"
  by (simp add: tc358768_power_on_def tc358768_setup_pll_def tc358768_sw_reset_def
        tc358768_dsi_xfer_short_def Let_def requests_wr requests_upd requests_usleep_range
        sync_width_writes_def reg_defs tc358768_pll_to_pclk_def dsi_hsw_value_def div_u64_def
        ddata_solved_def probe_ddata_def requests_bus0)

theorem power_on_sync_width_witness:
  "map_option sync_width_writes (tc358768_power_on ddata_solved bus0) =
     Some [Write_req TC358768_DSI_VSW 26, Write_req TC358768_DSI_HSW 183]
   \<and> (1 + 60) * (464700000 div 4) * 4 div 154900000 = (183 :: nat)"
proof -
  obtain b' where p: "tc358768_power_on ddata_solved bus0 = Some b'"
    using power_on_solved by (cases "tc358768_power_on ddata_solved bus0") auto
  have h: "dsi_hsw_value ddata_solved = Some 183"
    by (simp add: dsi_hsw_value_def div_u64_def ddata_solved_def probe_ddata_def)
  from power_on_sync_width [OF p] h
  have "sync_width_writes b' = sync_width_writes bus0 @
          [Write_req TC358768_DSI_VSW (vsw ddata_solved + vbp ddata_solved),
           Write_req TC358768_DSI_HSW 183]"
    by auto
  then show ?thesis
    using p by (simp add: sync_width_writes_def requests_bus0 ddata_solved_def probe_ddata_def)
qed

text \<open>
  C6 as stated fails: with \<open>hsw = vsw = 0xFFFFFFFF\<close> and \<open>hbp = vbp = 2\<close> both sums
  wrap to 1. The registers get 1 and 3, the claim's formulas give 4,294,967,297 and
  12,884,901,891.
\<close>

theorem power_on_sync_width_counterexample:
  "map_option sync_width_writes (tc358768_power_on ddata_wrap bus0) =
     Some [Write_req TC358768_DSI_VSW 1, Write_req TC358768_DSI_HSW 3]
   \<and> unat (vsw ddata_wrap) + unat (vbp ddata_wrap) = 4294967297
   \<and> (unat (hsw ddata_wrap) + unat (hbp ddata_wrap)) * (unat (bitclk ddata_wrap) div 4)
        * unat (dsi_ndl ddata_wrap) div unat (pixelclock ddata_wrap) = 12884901891"
  by (simp add: tc358768_power_on_def tc358768_setup_pll_def tc358768_sw_reset_def
        tc358768_dsi_xfer_short_def Let_def requests_wr requests_upd requests_usleep_range
        sync_width_writes_def reg_defs tc358768_pll_to_pclk_def dsi_hsw_value_def div_u64_def
        ddata_wrap_def ddata_solved_def probe_ddata_def requests_bus0)


section \<open>The divider search\<close>

lemma unat_abs_diff: "unat (max pll t - min pll t) = freq_dist pll (t :: u32)"
proof (cases "pll \<le> t")
  case True
  then have "unat (t - pll) = unat t - unat pll" by (simp add: unat_sub)
  with True show ?thesis by (simp add: freq_dist_def max_def min_def word_le_nat_alt)
next
  case False
  then have "t \<le> pll" by simp
  then have "unat (pll - t) = unat pll - unat t" by (simp add: unat_sub)
  with False show ?thesis by (simp add: freq_dist_def max_def min_def word_le_nat_alt)
qed

lemma freq_dist_not_max:
  assumes "in_bracket mx mn pll" and "t < mx"
  shows "max pll t - min pll t < UINT_MAX"
proof -
  have "unat pll < unat mx" "unat t < unat mx"
    using assms by (simp_all add: in_bracket_def word_less_nat_alt)
  moreover have "unat mx < 2 ^ 32" by (rule u32_lt)
  ultimately have "freq_dist pll t < 2 ^ 32 - 1"
    unfolding freq_dist_def by (cases "unat pll \<le> unat t") simp_all
  then show ?thesis
    by (simp add: word_less_nat_alt unat_abs_diff UINT_MAX_def)
qed

lemma is_best_skip:
  assumes "is_best c mx mn t S best" and "\<not> in_bracket mx mn (c p f)"
  shows "is_best c mx mn t (insert (p, f) S) best"
  using assms unfolding is_best_def by auto

lemma is_best_take:
  assumes b: "is_best c mx mn t S best" and i: "in_bracket mx mn (c p f)"
    and later: "\<forall>(p', f') \<in> S. p' < p \<or> (p' = p \<and> f' \<le> f)"
    and lt: "t < mx"
  shows "is_best c mx mn t (insert (p, f) S)
           (if max (c p f) t - min (c p f) t < best_diff best
            then \<lparr>best_diff = max (c p f) t - min (c p f) t, best_pll = c p f,
                  best_prd = p, best_fbd = f\<rparr>
            else best)"
proof -
  let ?d = "max (c p f) t - min (c p f) t"
  have dn: "unat ?d = freq_dist (c p f) t" by (rule unat_abs_diff)
  have dm: "?d < UINT_MAX" using i lt by (rule freq_dist_not_max)
  from b consider
    (none) "\<forall>(p, f) \<in> S. \<not> in_bracket mx mn (c p f)"
      "best = \<lparr>best_diff = UINT_MAX, best_pll = 0, best_prd = 0, best_fbd = 0\<rparr>"
  | (some) "(best_prd best, best_fbd best) \<in> S"
      "in_bracket mx mn (c (best_prd best) (best_fbd best))"
      "best_pll best = c (best_prd best) (best_fbd best)"
      "unat (best_diff best) = freq_dist (best_pll best) t"
      "\<forall>(p, f) \<in> S. in_bracket mx mn (c p f) \<longrightarrow>
         freq_dist (best_pll best) t < freq_dist (c p f) t \<or>
         (freq_dist (best_pll best) t = freq_dist (c p f) t \<and>
          (best_prd best < p \<or> (best_prd best = p \<and> best_fbd best \<le> f)))"
    unfolding is_best_def by blast
  then show ?thesis
  proof cases
    case none
    then show ?thesis
      using dm dn i unfolding is_best_def by auto
  next
    case some
    show ?thesis
    proof (cases "?d < best_diff best")
      case True
      then have "freq_dist (c p f) t < freq_dist (best_pll best) t"
        using dn some(4) by (simp add: word_less_nat_alt)
      then show ?thesis
        using True some(5) i dn unfolding is_best_def by fastforce
    next
      case False
      then have "freq_dist (best_pll best) t \<le> freq_dist (c p f) t"
        using dn some(4) by (simp add: word_less_nat_alt)
      moreover have "best_prd best < p \<or> (best_prd best = p \<and> best_fbd best \<le> f)"
        using later some(1) by blast
      ultimately show ?thesis
        using False some unfolding is_best_def by auto
    qed
  qed
qed


lemma u32_less_succ:
  assumes "(x :: u32) < 512"
  shows "y < x + 1 \<longleftrightarrow> y \<le> x"
proof -
  have "unat x < 512" using assms by (simp add: word_less_nat_alt)
  then have e: "unat (x + 1) = unat x + 1" by (simp add: unat_word_ariths)
  have "y < x + 1 \<longleftrightarrow> unat y < unat x + 1"
    by (simp only: word_less_nat_alt e)
  also have "\<dots> \<longleftrightarrow> unat y \<le> unat x" by arith
  also have "\<dots> \<longleftrightarrow> y \<le> x" by (simp only: word_le_nat_alt)
  finally show ?thesis .
qed

lemma examined_step:
  assumes "fbd_v < 512"
  shows "examined prd_v (fbd_v + 1) = insert (prd_v, fbd_v) (examined prd_v fbd_v)"
proof -
  have s: "f < fbd_v + 1 \<longleftrightarrow> f < fbd_v \<or> f = fbd_v" for f
    by (simp only: u32_less_succ [OF assms] order.order_iff_strict disj_commute)
  show ?thesis
    unfolding examined_def s using assms by blast
qed

lemma examined_later:
  "\<forall>(p', f') \<in> examined prd_v fbd_v. p' < prd_v \<or> (p' = prd_v \<and> f' \<le> fbd_v)"
  unfolding examined_def by auto

lemma examined_next_prd:
  assumes "prd_v < 16"
  shows "examined (prd_v + 1) 0 = examined prd_v 512"
proof -
  have "prd_v < 512" using assms by (simp add: word_less_nat_alt)
  then have s: "p < prd_v + 1 \<longleftrightarrow> p < prd_v \<or> p = prd_v" for p
    by (simp only: u32_less_succ order.order_iff_strict disj_commute)
  have z: "f < (0 :: u32) \<longleftrightarrow> False" for f by simp
  show ?thesis
    unfolding examined_def s z by auto
qed

text \<open>
  The inner loop keeps \<open>is_best\<close>. It ends either by the exact match at the pair it stands
  on, or at 512 with every pair of this \<open>prd\<close> examined.
\<close>

lemma inner_loop_inv:
  assumes "is_best c mx mn t (examined prd_v fbd_v) best"
    and "fbd_v \<le> 512" and "best_diff best \<noteq> 0" and "t < mx"
    and "\<And>f. c prd_v f = pll_cand rclk dv f"
  shows "case inner_loop rclk dv mx mn t prd_v fbd_v best of (fe, bo) \<Rightarrow>
           (best_diff bo = 0 \<longrightarrow>
              fe < 512 \<and> best_prd bo = prd_v \<and> best_fbd bo = fe \<and>
              is_best c mx mn t (examined prd_v (fe + 1)) bo) \<and>
           (best_diff bo \<noteq> 0 \<longrightarrow>
              fe = 512 \<and> is_best c mx mn t (examined prd_v 512) bo)"
  using assms
proof (induction rclk dv mx mn t prd_v fbd_v best rule: inner_loop.induct)
  case (1 rclk dv mx mn t prd_v fbd_v best)
  show ?case
  proof (cases "fbd_v < 512")
    case False
    with "1.prems"(2) have e: "fbd_v = 512" by simp
    have "inner_loop rclk dv mx mn t prd_v fbd_v best = (fbd_v, best)"
      using False by (subst inner_loop.simps) simp
    then show ?thesis using "1.prems"(1,3) e by simp
  next
    case True
    let ?pll = "pll_cand rclk dv fbd_v"
    have cp: "c prd_v fbd_v = ?pll" by (rule "1.prems"(5))
    have le: "fbd_v + 1 \<le> 512" using True by (rule inc_le)
    have st: "examined prd_v (fbd_v + 1) = insert (prd_v, fbd_v) (examined prd_v fbd_v)"
      using True by (rule examined_step)
    show ?thesis
    proof (cases "?pll \<ge> mx \<or> ?pll < mn")
      case skip: True
      then have nb: "\<not> in_bracket mx mn (c prd_v fbd_v)"
        by (auto simp: in_bracket_def cp)
      have inv: "is_best c mx mn t (examined prd_v (fbd_v + 1)) best"
        unfolding st using "1.prems"(1) nb by (rule is_best_skip)
      have eq: "inner_loop rclk dv mx mn t prd_v fbd_v best =
                  inner_loop rclk dv mx mn t prd_v (fbd_v + 1) best"
        using True skip by (subst inner_loop.simps) (simp add: Let_def)
      show ?thesis
        unfolding eq
        by (rule "1.IH"(1) [OF True refl skip inv le "1.prems"(3) "1.prems"(4) "1.prems"(5)])
    next
      case take: False
      then have ib: "in_bracket mx mn (c prd_v fbd_v)"
        by (auto simp: in_bracket_def cp)
      let ?diff = "max ?pll t - min ?pll t"
      let ?best' = "if ?diff < best_diff best
                    then \<lparr>best_diff = ?diff, best_pll = ?pll, best_prd = prd_v, best_fbd = fbd_v\<rparr>
                    else best"
      have inv: "is_best c mx mn t (examined prd_v (fbd_v + 1)) ?best'"
        using is_best_take [OF "1.prems"(1) ib examined_later "1.prems"(4)]
        unfolding st cp .
      show ?thesis
      proof (cases "best_diff ?best' = 0")
        case stop: True
        have eq: "inner_loop rclk dv mx mn t prd_v fbd_v best = (fbd_v, ?best')"
          using True take stop by (subst inner_loop.simps) (simp add: Let_def)
        have new: "?diff < best_diff best"
          using stop "1.prems"(3) by (auto split: if_splits)
        show ?thesis
          unfolding eq using True stop inv new by simp
      next
        case go: False
        have eq: "inner_loop rclk dv mx mn t prd_v fbd_v best =
                    inner_loop rclk dv mx mn t prd_v (fbd_v + 1) ?best'"
          using True take go by (subst inner_loop.simps) (simp add: Let_def)
        show ?thesis
          unfolding eq
          by (rule "1.IH"(2) [OF True refl take refl refl go inv le go "1.prems"(4) "1.prems"(5)])
      qed
    qed
  qed
qed


text \<open>
  The outer loop keeps \<open>is_best\<close> as well. It ends either by the exact match, with both
  loop variables on the matching pair, or at 16 with every pair examined.
\<close>

lemma outer_loop_inv:
  assumes "is_best c mx mn t (examined prd_v 0) best"
    and "prd_v \<le> 16" and "best_diff best \<noteq> 0" and "t < mx"
    and "\<And>p f. c p f = pll_cand rclk (pll_divisor frs_v p) f"
  shows "case outer_loop rclk frs_v mx mn t prd_v fbd_v best of (pe, fe, bo) \<Rightarrow>
           (best_diff bo = 0 \<longrightarrow>
              pe < 16 \<and> fe < 512 \<and> best_prd bo = pe \<and> best_fbd bo = fe \<and>
              is_best c mx mn t (examined pe (fe + 1)) bo) \<and>
           (best_diff bo \<noteq> 0 \<longrightarrow>
              pe = 16 \<and> (prd_v < 16 \<longrightarrow> fe = 512) \<and>
              is_best c mx mn t (examined 16 0) bo)"
  using assms
proof (induction rclk frs_v mx mn t prd_v fbd_v best rule: outer_loop.induct)
  case (1 rclk frs_v mx mn t prd_v fbd_v best)
  show ?case
  proof (cases "prd_v < 16")
    case False
    with "1.prems"(2) have e: "prd_v = 16" by simp
    have "outer_loop rclk frs_v mx mn t prd_v fbd_v best = (prd_v, fbd_v, best)"
      using False by (subst outer_loop.simps) simp
    then show ?thesis using "1.prems"(1,3) e by simp
  next
    case True
    let ?dv = "pll_divisor frs_v prd_v"
    obtain fe bo where il: "inner_loop rclk ?dv mx mn t prd_v 0 best = (fe, bo)"
      by (cases "inner_loop rclk ?dv mx mn t prd_v 0 best")
    have c: "\<And>f. c prd_v f = pll_cand rclk ?dv f" by (rule "1.prems"(5))
    have z: "(0 :: u32) \<le> 512" by simp
    from inner_loop_inv [OF "1.prems"(1) z "1.prems"(3) "1.prems"(4) c]
    have inner: "(best_diff bo = 0 \<longrightarrow>
              fe < 512 \<and> best_prd bo = prd_v \<and> best_fbd bo = fe \<and>
              is_best c mx mn t (examined prd_v (fe + 1)) bo) \<and>
           (best_diff bo \<noteq> 0 \<longrightarrow>
              fe = 512 \<and> is_best c mx mn t (examined prd_v 512) bo)"
      by (simp add: il)
    show ?thesis
    proof (cases "best_diff bo = 0")
      case stop: True
      have eq: "outer_loop rclk frs_v mx mn t prd_v fbd_v best = (prd_v, fe, bo)"
        using True stop by (subst outer_loop.simps) (simp add: Let_def il)
      show ?thesis unfolding eq using True stop inner by simp
    next
      case go: False
      have eq: "outer_loop rclk frs_v mx mn t prd_v fbd_v best =
                  outer_loop rclk frs_v mx mn t (prd_v + 1) fe bo"
        using True go by (subst outer_loop.simps) (simp add: Let_def il)
      have inv: "is_best c mx mn t (examined (prd_v + 1) 0) bo"
        using inner go by (simp add: examined_next_prd [OF True])
      have le: "prd_v + 1 \<le> 16" using True by (rule inc_le)
      have fe: "fe = 512" using inner go by simp
      have "case outer_loop rclk frs_v mx mn t (prd_v + 1) fe bo of (pe, fe', bo') \<Rightarrow>
           (best_diff bo' = 0 \<longrightarrow>
              pe < 16 \<and> fe' < 512 \<and> best_prd bo' = pe \<and> best_fbd bo' = fe' \<and>
              is_best c mx mn t (examined pe (fe' + 1)) bo') \<and>
           (best_diff bo' \<noteq> 0 \<longrightarrow>
              pe = 16 \<and> (prd_v + 1 < 16 \<longrightarrow> fe' = 512) \<and>
              is_best c mx mn t (examined 16 0) bo')"
        by (rule "1.IH" [OF True refl il [symmetric] go inv le go "1.prems"(4) "1.prems"(5)])
      moreover have "outer_loop rclk frs_v mx mn t (prd_v + 1) fe bo = (prd_v + 1, fe, bo)"
        if "\<not> prd_v + 1 < 16"
        using that by (subst outer_loop.simps) simp
      ultimately show ?thesis
        unfolding eq using fe by (cases "prd_v + 1 < 16") (auto split: prod.splits)
    qed
  qed
qed


lemma examined_empty: "examined 0 0 = {}"
  by (auto simp: examined_def)

lemma examined_all: "examined 16 0 = {(p, f). p < 16 \<and> f < 512}"
  by (auto simp: examined_def)

text \<open>An exact match stays the best pair whatever comes after it in loop order.\<close>

lemma is_best_exact:
  assumes b: "is_best c mx mn t (examined pe (fe + 1)) bo" and z: "best_diff bo = 0"
    and at: "best_prd bo = pe" "best_fbd bo = fe" and lt: "pe < 16" "fe < 512"
  shows "is_best c mx mn t {(p, f). p < 16 \<and> f < 512} bo"
proof -
  have s: "f < fe + 1 \<longleftrightarrow> f \<le> fe" for f using lt(2) by (rule u32_less_succ)
  have not_init: "bo \<noteq> \<lparr>best_diff = UINT_MAX, best_pll = 0, best_prd = 0, best_fbd = 0\<rparr>"
    using z by (auto simp: UINT_MAX_def)
  from b not_init have
    i: "in_bracket mx mn (c (best_prd bo) (best_fbd bo))"
    and p: "best_pll bo = c (best_prd bo) (best_fbd bo)"
    and d: "unat (best_diff bo) = freq_dist (best_pll bo) t"
    and m: "\<forall>(p, f) \<in> examined pe (fe + 1). in_bracket mx mn (c p f) \<longrightarrow>
         freq_dist (best_pll bo) t < freq_dist (c p f) t \<or>
         (freq_dist (best_pll bo) t = freq_dist (c p f) t \<and>
          (best_prd bo < p \<or> (best_prd bo = p \<and> best_fbd bo \<le> f)))"
    unfolding is_best_def by blast+
  have d0: "freq_dist (best_pll bo) t = 0" using d z by simp
  have "freq_dist (best_pll bo) t < freq_dist (c p f) t \<or>
         (freq_dist (best_pll bo) t = freq_dist (c p f) t \<and>
          (best_prd bo < p \<or> (best_prd bo = p \<and> best_fbd bo \<le> f)))"
    if pf: "p < 16" "f < 512" and ib: "in_bracket mx mn (c p f)" for p f
  proof (cases "(p, f) \<in> examined pe (fe + 1)")
    case True
    with m ib show ?thesis by blast
  next
    case False
    then have "pe < p \<or> (pe = p \<and> fe \<le> f)"
      using pf by (auto simp: examined_def s)
    then show ?thesis using d0 at by auto
  qed
  moreover have "(best_prd bo, best_fbd bo) \<in> {(p, f). p < 16 \<and> f < 512}"
    using at lt by simp
  ultimately show ?thesis
    unfolding is_best_def using i p d by blast
qed

text \<open>
  The whole search: the record it returns is the best of all 16 times 512 pairs, and the
  loop variables stand on the matching pair after an exact match and at 16 and 512
  otherwise.
\<close>

lemma pll_search_spec:
  assumes lt: "t < mx" and se: "pll_search rclk frs_v mx mn t = (pe, fe, bo)"
  shows "is_best (\<lambda>p f. pll_cand rclk (pll_divisor frs_v p) f) mx mn t
           {(p, f). p < 16 \<and> f < 512} bo"
    and "best_diff bo = 0 \<Longrightarrow> pe = best_prd bo \<and> fe = best_fbd bo \<and> pe < 16 \<and> fe < 512"
    and "best_diff bo \<noteq> 0 \<Longrightarrow> pe = 16 \<and> fe = 512"
proof -
  let ?c = "\<lambda>p f. pll_cand rclk (pll_divisor frs_v p) f"
  let ?init = "\<lparr>best_diff = UINT_MAX, best_pll = 0, best_prd = 0, best_fbd = 0\<rparr>"
  have i0: "is_best ?c mx mn t (examined 0 0) ?init"
    by (simp add: examined_empty is_best_def)
  have n0: "best_diff ?init \<noteq> 0" by (simp add: UINT_MAX_def)
  have z: "(0 :: u32) \<le> 16" by simp
  have c: "\<And>p f. ?c p f = pll_cand rclk (pll_divisor frs_v p) f" by simp
  from outer_loop_inv [OF i0 z n0 lt c, of 0] se
  have r: "(best_diff bo = 0 \<longrightarrow>
              pe < 16 \<and> fe < 512 \<and> best_prd bo = pe \<and> best_fbd bo = fe \<and>
              is_best ?c mx mn t (examined pe (fe + 1)) bo) \<and>
           (best_diff bo \<noteq> 0 \<longrightarrow>
              pe = 16 \<and> fe = 512 \<and> is_best ?c mx mn t (examined 16 0) bo)"
    by (simp add: pll_search_def)
  show "is_best ?c mx mn t {(p, f). p < 16 \<and> f < 512} bo"
  proof (cases "best_diff bo = 0")
    case True
    with r show ?thesis by (intro is_best_exact [where pe = pe and fe = fe]) simp_all
  next
    case False
    with r show ?thesis by (simp add: examined_all)
  qed
  show "best_diff bo = 0 \<Longrightarrow> pe = best_prd bo \<and> fe = best_fbd bo \<and> pe < 16 \<and> fe < 512"
    using r by simp
  show "best_diff bo \<noteq> 0 \<Longrightarrow> pe = 16 \<and> fe = 512"
    using r by simp
qed




section \<open>C1 and C4: the solution of the solver\<close>

lemma calc_pll_Inr:
  assumes "tc358768_calc_pll d = Some (Inr d')"
  obtains t fr mx mn pe fe bo where
    "tc358768_pclk_to_pll d = Some t" and "find_frs 0 t = Some (fr, mx, mn)"
    and "pll_search (refclk d) fr mx mn t = (pe, fe, bo)" and "best_diff bo \<noteq> UINT_MAX"
    and "d' = d\<lparr>fbd := best_fbd bo, prd := best_prd bo, frs := fr,
                  bitclk := best_pll bo div 2\<rparr>"
  using assms
  by (auto simp: tc358768_calc_pll_def split: option.splits prod.splits if_splits)

lemma unat_pow2_u32:
  assumes "n < 4"
  shows "unat (2 ^ n :: u32) = 2 ^ n"
proof -
  from assms have "n = 0 \<or> n = 1 \<or> n = 2 \<or> n = 3" by arith
  then show ?thesis by auto
qed

lemma unat_pll_divisor:
  assumes p: "p < 16" and fr: "unat fr < 4"
  shows "unat (pll_divisor fr p) = (unat p + 1) * 2 ^ unat fr"
    and "(unat p + 1) * 2 ^ unat fr \<le> 128"
proof -
  have pn: "unat p < 16" using p by (simp add: word_less_nat_alt)
  then have p1: "unat (p + 1) = unat p + 1" by (simp add: unat_word_ariths)
  have "(2 :: nat) ^ unat fr \<le> 2 ^ 3" using fr by (intro power_increasing) simp_all
  then have f8: "(2 :: nat) ^ unat fr \<le> 8" by simp
  have "(unat p + 1) * 2 ^ unat fr \<le> 16 * 8"
    using pn f8 by (intro mult_mono) simp_all
  then show le: "(unat p + 1) * 2 ^ unat fr \<le> 128" by simp
  have "unat (p + 1) * unat (push_bit (unat fr) 1 :: u32) < 2 ^ LENGTH(32)"
    using le by (simp add: p1 unat_pow2_u32 [OF fr])
  then have "unat ((p + 1) * push_bit (unat fr) 1) = unat (p + 1) * unat (push_bit (unat fr) 1 :: u32)"
    by (rule unat_mult_exact)
  then show "unat (pll_divisor fr p) = (unat p + 1) * 2 ^ unat fr"
    by (simp add: pll_divisor_def p1 unat_pow2_u32 [OF fr])
qed

text \<open>The candidate in natural numbers: the quotient, cut to 32 bits.\<close>

lemma unat_pll_cand:
  assumes p: "p < 16" and f: "f < 512" and fr: "unat fr < 4"
  shows "unat (pll_cand rclk (pll_divisor fr p) f) =
           unat rclk * (unat f + 1) div ((unat p + 1) * 2 ^ unat fr) mod 2 ^ 32"
proof -
  have "unat f < 512" using f by (simp add: word_less_nat_alt)
  then have f1: "unat (f + 1) = unat f + 1" by (simp add: unat_word_ariths)
  have n: "unat ((ucast rclk :: u64) * ucast (f + 1)) = unat rclk * (unat f + 1)"
    by (simp only: unat_mul_u64 f1)
  have dv: "unat (ucast (pll_divisor fr p) :: u64) = (unat p + 1) * 2 ^ unat fr"
    by (simp only: unat_u32_u64 unat_pll_divisor(1) [OF p fr])
  show ?thesis
    unfolding pll_cand_def by (simp only: unat_u64_u32 unat_div n dv)
qed

text \<open>The facts about a solution that both claims use.\<close>

lemma calc_pll_solution_facts:
  assumes c: "tc358768_calc_pll d = Some (Inr d')"
  obtains t mx mn pe fe bo where
    "tc358768_pclk_to_pll d = Some t" and "find_frs 0 t = Some (frs d', mx, mn)"
    and "pll_search (refclk d) (frs d') mx mn t = (pe, fe, bo)"
    and "is_best (\<lambda>p f. pll_cand (refclk d) (pll_divisor (frs d') p) f) mx mn t
           {(p, f). p < 16 \<and> f < 512} bo"
    and "prd d' = best_prd bo" and "fbd d' = best_fbd bo" and "bitclk d' = best_pll bo div 2"
    and "refclk d' = refclk d"
    and "prd d' < 16" and "fbd d' < 512"
    and "in_bracket mx mn (best_pll bo)"
    and "best_pll bo = pll_cand (refclk d) (pll_divisor (frs d') (prd d')) (fbd d')"
    and "unat (best_diff bo) = freq_dist (best_pll bo) t"
proof -
  from c obtain t fr mx mn pe fe bo where
    t: "tc358768_pclk_to_pll d = Some t" and fs: "find_frs 0 t = Some (fr, mx, mn)"
    and se: "pll_search (refclk d) fr mx mn t = (pe, fe, bo)" and nm: "best_diff bo \<noteq> UINT_MAX"
    and d': "d' = d\<lparr>fbd := best_fbd bo, prd := best_prd bo, frs := fr,
                  bitclk := best_pll bo div 2\<rparr>"
    by (rule calc_pll_Inr)
  have fr: "frs d' = fr" by (simp add: d')
  have lt: "t < mx" using fs find_frs_Some [of t fr mx mn] by blast
  note ib = pll_search_spec(1) [OF lt se]
  have ni: "bo \<noteq> \<lparr>best_diff = UINT_MAX, best_pll = 0, best_prd = 0, best_fbd = 0\<rparr>"
    using nm by auto
  from ib ni have
    m: "(best_prd bo, best_fbd bo) \<in> {(p, f). p < 16 \<and> f < 512}"
    and i: "in_bracket mx mn (pll_cand (refclk d) (pll_divisor fr (best_prd bo)) (best_fbd bo))"
    and p: "best_pll bo = pll_cand (refclk d) (pll_divisor fr (best_prd bo)) (best_fbd bo)"
    and dd: "unat (best_diff bo) = freq_dist (best_pll bo) t"
    unfolding is_best_def by blast+
  show ?thesis
  proof (rule that [OF t])
    show "find_frs 0 t = Some (frs d', mx, mn)" using fs fr by simp
    show "pll_search (refclk d) (frs d') mx mn t = (pe, fe, bo)" using se fr by simp
    show "is_best (\<lambda>p f. pll_cand (refclk d) (pll_divisor (frs d') p) f) mx mn t
           {(p, f). p < 16 \<and> f < 512} bo" using ib fr by simp
    show "prd d' = best_prd bo" "fbd d' = best_fbd bo" "bitclk d' = best_pll bo div 2"
      "refclk d' = refclk d" by (simp_all add: d')
    show "prd d' < 16" "fbd d' < 512" using m by (simp_all add: d')
    show "in_bracket mx mn (best_pll bo)" using i p by simp
    show "best_pll bo = pll_cand (refclk d) (pll_divisor (frs d') (prd d')) (fbd d')"
      using p by (simp add: d')
    show "unat (best_diff bo) = freq_dist (best_pll bo) t" by (rule dd)
  qed
qed


text \<open>
  What holds of every solution: \<open>fbd\<close> is below 512, \<open>prd\<close> below 16 and \<open>frs\<close> below 4;
  the quotient \<open>refclk * (fbd + 1) / ((prd + 1) * 2^frs)\<close>, cut to 32 bits, lies in the
  bracket of \<open>frs\<close>, and \<open>bitclk\<close> is half of that 32-bit value. When the quotient fits
  32 bits this is the quotient itself.
\<close>

lemma calc_pll_solution_mod32:
  assumes "tc358768_calc_pll d = Some (Inr d')"
  shows "unat (fbd d') < 512 \<and> unat (prd d') < 16 \<and> unat (frs d') < 4
     \<and> refclk d' = refclk d
     \<and> unat (frs_limits ! (unat (frs d') + 1)) \<le> pll_freq d' mod 2 ^ 32
     \<and> pll_freq d' mod 2 ^ 32 < unat (frs_limits ! unat (frs d'))
     \<and> unat (bitclk d') = pll_freq d' mod 2 ^ 32 div 2
     \<and> (pll_freq d' < 2 ^ 32 \<longrightarrow>
          unat (frs_limits ! (unat (frs d') + 1)) \<le> pll_freq d'
          \<and> pll_freq d' < unat (frs_limits ! unat (frs d'))
          \<and> unat (bitclk d') = pll_freq d' div 2)"
proof -
  from assms obtain t mx mn pe fe bo where
    "tc358768_pclk_to_pll d = Some t" and fs: "find_frs 0 t = Some (frs d', mx, mn)"
    and "pll_search (refclk d) (frs d') mx mn t = (pe, fe, bo)"
    and "is_best (\<lambda>p f. pll_cand (refclk d) (pll_divisor (frs d') p) f) mx mn t
           {(p, f). p < 16 \<and> f < 512} bo"
    and "prd d' = best_prd bo" and "fbd d' = best_fbd bo"
    and b: "bitclk d' = best_pll bo div 2" and r: "refclk d' = refclk d"
    and p: "prd d' < 16" and f: "fbd d' < 512"
    and i: "in_bracket mx mn (best_pll bo)"
    and c: "best_pll bo = pll_cand (refclk d) (pll_divisor (frs d') (prd d')) (fbd d')"
    and "unat (best_diff bo) = freq_dist (best_pll bo) t"
    by (rule calc_pll_solution_facts)
  from fs have fr: "unat (frs d') < 4" and mx: "mx = frs_limits ! unat (frs d')"
    and mn: "mn = frs_limits ! (unat (frs d') + 1)"
    using find_frs_Some [of t "frs d'" mx mn] by blast+
  have v: "unat (best_pll bo) = pll_freq d' mod 2 ^ 32"
    unfolding c pll_freq_def r by (rule unat_pll_cand [OF p f fr])
  have lo: "unat (frs_limits ! (unat (frs d') + 1)) \<le> pll_freq d' mod 2 ^ 32"
    using i unfolding in_bracket_def mn word_le_nat_alt v by blast
  have hi: "pll_freq d' mod 2 ^ 32 < unat (frs_limits ! unat (frs d'))"
    using i unfolding in_bracket_def mx word_less_nat_alt v by blast
  have h: "unat (bitclk d') = pll_freq d' mod 2 ^ 32 div 2"
    unfolding b by (simp add: unat_div v)
  have n: "unat (fbd d') < 512" "unat (prd d') < 16"
    using p f by (simp_all add: word_less_nat_alt)
  have e: "pll_freq d' mod 2 ^ 32 = pll_freq d'" if "pll_freq d' < 2 ^ 32"
    using that by (rule mod_less)
  show ?thesis
    using n fr r lo hi h e by metis
qed

lemma calc_pll_probe: "tc358768_calc_pll probe_ddata = Some (Inr ddata_solved)"
  by code_simp

text \<open>
  C1. For every configuration the solver accepts, the solution has \<open>fbd\<close> below 512 and
  \<open>prd\<close> below 16, its frequency \<open>refclk * (fbd + 1) / ((prd + 1) * 2^frs)\<close> lies in the
  bracket of \<open>frs\<close>, and \<open>bitclk\<close> is exactly half of that frequency. The solver does not
  meet this: at a pixel clock of 83,804,242 Hz with the probe's lane counts and reference
  clock (a quarter of the pixel clock, 20,951,060 Hz) the target is 502,825,448 Hz and the
  solver returns \<open>prd = 0\<close>, \<open>fbd = 433\<close>, \<open>frs = 0\<close>, \<open>bitclk = 251,412,724\<close>. The
  frequency of that solution is 20,951,060 * 434 = 9,092,760,040 Hz, outside the bracket
  from 500,000,000 to 1,000,000,000 and not twice the bit clock: the 64-bit quotient is
  cast to 32 bits before the bracket test, which leaves 502,825,448, the target. The
  divider pair \<open>prd = 0\<close>, \<open>fbd = 23\<close>, whose frequency 502,825,440 Hz is in the bracket
  and 8 Hz from the target, is passed over.
\<close>

theorem calc_pll_wrapped_solution:
  "refclk ddata_wrapped = pixelclock ddata_wrapped div 4
   \<and> tc358768_pclk_to_pll ddata_wrapped = Some 502825448
   \<and> tc358768_calc_pll ddata_wrapped = Some (Inr ddata_wrapped_solved)
   \<and> fbd ddata_wrapped_solved = 433 \<and> prd ddata_wrapped_solved = 0
   \<and> frs ddata_wrapped_solved = 0 \<and> bitclk ddata_wrapped_solved = 251412724
   \<and> pll_freq ddata_wrapped_solved = 9092760040
   \<and> \<not> pll_freq ddata_wrapped_solved < unat (frs_limits ! unat (frs ddata_wrapped_solved))
   \<and> unat (bitclk ddata_wrapped_solved) \<noteq> pll_freq ddata_wrapped_solved div 2
   \<and> pll_freq (ddata_wrapped_solved\<lparr>fbd := 23\<rparr>) = 502825440
   \<and> unat (pll_cand (refclk ddata_wrapped) (pll_divisor 0 0) 433) = 9092760040 mod 2 ^ 32"
proof -
  have c: "tc358768_calc_pll ddata_wrapped = Some (Inr ddata_wrapped_solved)"
    by code_simp
  have t: "tc358768_pclk_to_pll ddata_wrapped = Some 502825448"
    by (simp add: tc358768_pclk_to_pll_def div_u64_def ddata_wrapped_def probe_ddata_def)
  have k: "unat (pll_cand (refclk ddata_wrapped) (pll_divisor 0 0) 433) = 9092760040 mod 2 ^ 32"
    by (simp add: pll_cand_def pll_divisor_def ddata_wrapped_def probe_ddata_def)
  have v: "pll_freq ddata_wrapped_solved = 9092760040"
    by (simp add: pll_freq_def ddata_wrapped_solved_def ddata_wrapped_def probe_ddata_def)
  have w: "pll_freq (ddata_wrapped_solved\<lparr>fbd := 23\<rparr>) = 502825440"
    by (simp add: pll_freq_def ddata_wrapped_solved_def ddata_wrapped_def probe_ddata_def)
  show ?thesis
    unfolding v w using c t k
    by (simp add: ddata_wrapped_solved_def ddata_wrapped_def probe_ddata_def frs_limits_def)
qed






section \<open>C9 and C2: the enable sequence\<close>

text \<open>A solved configuration has a pixel clock and a DPI lane count other than zero.\<close>

lemma calc_pll_nonzero:
  assumes "tc358768_calc_pll d = Some (Inr d')"
  shows "dpi_ndl d' \<noteq> 0" and "pixelclock d' \<noteq> 0"
proof -
  from assms obtain t fr mx mn pe fe bo where
    t: "tc358768_pclk_to_pll d = Some t" and fs: "find_frs 0 t = Some (fr, mx, mn)"
    and "pll_search (refclk d) fr mx mn t = (pe, fe, bo)" and "best_diff bo \<noteq> UINT_MAX"
    and d': "d' = d\<lparr>fbd := best_fbd bo, prd := best_prd bo, frs := fr,
                  bitclk := best_pll bo div 2\<rparr>"
    by (rule calc_pll_Inr)
  from fs have "find_frs 0 t \<noteq> None" by simp
  then have "\<not> t < 62500000" by (simp add: find_frs_None)
  then have tn: "t \<noteq> 0" by auto
  have z: "tc358768_pclk_to_pll d = Some t \<Longrightarrow> t \<noteq> 0 \<Longrightarrow> dpi_ndl d \<noteq> 0 \<and> pixelclock d \<noteq> 0"
    by (auto simp: tc358768_pclk_to_pll_def div_u64_def Let_def split: if_splits)
  from z [OF t tn] show "dpi_ndl d' \<noteq> 0" and "pixelclock d' \<noteq> 0"
    by (simp_all add: d')
qed

lemma no_bus_error_wr: "no_bus_error b \<Longrightarrow> no_bus_error (wr reg val b)"
proof -
  assume ok: "no_bus_error b"
  then have ok1: "no_bus_error (snd (regmap_write reg val b))"
    by (rule no_bus_error_regmap_write)
  then have ok2: "no_bus_error (snd (regmap_write (reg + 2) (drop_bit 16 val)
                                  (snd (regmap_write reg val b))))"
    by (rule no_bus_error_regmap_write)
  show ?thesis
    using ok1 ok2 by (auto simp: wr_def tc358768_write_def split: prod.splits)
qed

lemma no_bus_error_usleep_range: "no_bus_error (usleep_range mn mx b) = no_bus_error b"
  by (simp add: no_bus_error_def usleep_range_def)

lemma no_bus_error_gpiod: "no_bus_error (gpiod_set_value_cansleep v b) = no_bus_error b"
  by (simp add: no_bus_error_def gpiod_set_value_cansleep_def)

lemma requests_wr_ok:
  assumes "\<not> (reg < 0x100 \<or> reg \<ge> 0x600)" and "no_bus_error b"
  shows "filter Q (requests (wr reg val b)) =
           filter Q (requests b) @ filter Q [Write_req reg val, Write_req (reg + 2) (drop_bit 16 val)]"
proof -
  have "trace (wr reg val b) =
          trace b @ [Bus_write reg val 0, Bus_write (reg + 2) (drop_bit 16 val) 0]"
    using write_wide_events(1) [OF assms, of val]
    wr_trace [of reg val b] by (auto simp: new_events_def wr_def)
  then show ?thesis by (simp add: requests_def)
qed


lemma enable_pll_order:
  assumes "tc358768_enable d b = Some (0, d', b')"
  shows "filter (\<lambda>q. sleeps q \<or> writes_reg TC358768_PLLCTL1 q) (requests b') =
           filter (\<lambda>q. sleeps q \<or> writes_reg TC358768_PLLCTL1 q) (requests b) @
           [Sleep_req 1000 2000,
            Write_req TC358768_PLLCTL1
              (push_bit 10 (frs d') OR push_bit 8 0x2 OR push_bit 4 0 OR push_bit 1 1 OR push_bit 0 1),
            Sleep_req 1000 2000,
            Write_req TC358768_PLLCTL1
              (push_bit 10 (frs d') OR push_bit 8 0x2 OR push_bit 4 1 OR push_bit 1 1 OR push_bit 0 1)]"
  using assms
  by (auto simp: tc358768_enable_def tc358768_power_on_def tc358768_setup_pll_def
        tc358768_sw_reset_def tc358768_dsi_xfer_short_def Let_def requests_wr requests_upd
        requests_usleep_range requests_gpiod reg_defs
        split: option.splits sum.splits if_splits)

lemma enable_confw_order:
  assumes "tc358768_enable d b = Some (0, d', b')"
  shows "filter (writes_reg TC358768_DSI_CONFW) (requests b') =
           filter (writes_reg TC358768_DSI_CONFW) (requests b) @
           [Write_req TC358768_DSI_CONFW (push_bit 29 5 OR push_bit 24 0x3 OR 0xa7),
            Write_req TC358768_DSI_CONFW (push_bit 29 6 OR push_bit 24 0x3 OR 0x8000)]"
  using assms
  by (auto simp: tc358768_enable_def tc358768_power_on_def tc358768_setup_pll_def
        tc358768_sw_reset_def tc358768_dsi_xfer_short_def Let_def requests_wr requests_upd
        requests_usleep_range requests_gpiod reg_defs
        split: option.splits sum.splits if_splits)

lemma enable_confw_halves:
  assumes "tc358768_enable d b = Some (0, d', b')" and "no_bus_error b"
  shows "filter (\<lambda>q. writes_reg TC358768_DSI_CONFW q \<or> writes_reg (TC358768_DSI_CONFW + 2) q)
           (requests b') =
         filter (\<lambda>q. writes_reg TC358768_DSI_CONFW q \<or> writes_reg (TC358768_DSI_CONFW + 2) q)
           (requests b) @
           [Write_req TC358768_DSI_CONFW (push_bit 29 5 OR push_bit 24 0x3 OR 0xa7),
            Write_req (TC358768_DSI_CONFW + 2) (push_bit 13 5 OR push_bit 8 0x3),
            Write_req TC358768_DSI_CONFW (push_bit 29 6 OR push_bit 24 0x3 OR 0x8000),
            Write_req (TC358768_DSI_CONFW + 2) (push_bit 13 6 OR push_bit 8 0x3)]"
  using assms
  by (auto simp: tc358768_enable_def tc358768_power_on_def tc358768_setup_pll_def
        tc358768_sw_reset_def tc358768_dsi_xfer_short_def Let_def requests_wr requests_upd
        requests_usleep_range requests_gpiod reg_defs requests_wr_ok no_bus_error_wr
        no_bus_error_usleep_range no_bus_error_gpiod
        split: option.splits sum.splits if_splits)


lemma enable_success:
  assumes "tc358768_calc_pll d = Some (Inr d')"
  shows "\<exists>b' v. tc358768_enable d b = Some (0, d', b') \<and> dsi_hsw_value d' = Some v"
proof -
  note nz = calc_pll_nonzero [OF assms]
  obtain pclk where p: "tc358768_pll_to_pclk d' (bitclk d' * 2) = Some pclk"
    using nz(1) by (simp add: tc358768_pll_to_pclk_def div_u64_def)
  obtain v where v: "dsi_hsw_value d' = Some v"
    using nz(2) by (simp add: dsi_hsw_value_def div_u64_def)
  show ?thesis
    using assms p v
    by (simp add: tc358768_enable_def tc358768_power_on_def tc358768_setup_pll_def Let_def)
qed

lemma enable_steps_any_bus:
  assumes "tc358768_enable d b = Some (0, d', b')" and "dsi_hsw_value d' = Some v"
  shows "filter starts_step (requests b') = filter starts_step (requests b) @ enable_steps d' v"
  using assms
  by (auto simp: tc358768_enable_def tc358768_power_on_def tc358768_setup_pll_def
        tc358768_sw_reset_def tc358768_dsi_xfer_short_def Let_def requests_wr requests_upd
        requests_usleep_range requests_gpiod reg_defs enable_steps_def
        split: option.splits sum.splits if_splits)


text \<open>
  C9. In a run of enable that returns 0, whatever the bus returns: the sleeps and the
  writes to PLLCTL1 are, in this order, the wait before bring-up, the write that enables the
  PLL with the clock-output bit (bit 4) clear, a sleep of 1000 to 2000 microseconds, and
  the write with the clock-output bit set. The writes to DSI_CONFW are the word with
  opcode 5 (set) and then the word with opcode 6 (clear) in its top three bits; on a bus
  without errors each is followed by its high half at the address plus 2.
\<close>

theorem enable_order:
  assumes "tc358768_enable d b = Some (0, d', b')"
  shows "pll_view (requests b') = pll_view (requests b) @
           [Sleep_req 1000 2000,
            Write_req TC358768_PLLCTL1
              (push_bit 10 (frs d') OR push_bit 8 0x2 OR push_bit 4 0 OR push_bit 1 1 OR push_bit 0 1),
            Sleep_req 1000 2000,
            Write_req TC358768_PLLCTL1
              (push_bit 10 (frs d') OR push_bit 8 0x2 OR push_bit 4 1 OR push_bit 1 1 OR push_bit 0 1)]
     \<and> \<not> bit (push_bit 10 (frs d') OR push_bit 8 0x2 OR push_bit 4 0 OR push_bit 1 1 OR push_bit 0 1) (4 :: nat)
     \<and> bit (push_bit 10 (frs d') OR push_bit 8 0x2 OR push_bit 4 0 OR push_bit 1 1 OR push_bit 0 1) (0 :: nat)
     \<and> bit (push_bit 10 (frs d') OR push_bit 8 0x2 OR push_bit 4 1 OR push_bit 1 1 OR push_bit 0 1) (4 :: nat)
     \<and> bit (push_bit 10 (frs d') OR push_bit 8 0x2 OR push_bit 4 1 OR push_bit 1 1 OR push_bit 0 1) (0 :: nat)
     \<and> filter (writes_reg TC358768_DSI_CONFW) (requests b') =
           filter (writes_reg TC358768_DSI_CONFW) (requests b) @
           [Write_req TC358768_DSI_CONFW (push_bit 29 5 OR push_bit 24 0x3 OR 0xa7),
            Write_req TC358768_DSI_CONFW (push_bit 29 6 OR push_bit 24 0x3 OR 0x8000)]
     \<and> drop_bit 29 (push_bit 29 5 OR push_bit 24 0x3 OR 0xa7 :: u32) = 5
     \<and> drop_bit 29 (push_bit 29 6 OR push_bit 24 0x3 OR 0x8000 :: u32) = 6
     \<and> (no_bus_error b \<longrightarrow>
          confw_view (requests b') = confw_view (requests b) @
            [Write_req TC358768_DSI_CONFW (push_bit 29 5 OR push_bit 24 0x3 OR 0xa7),
             Write_req (TC358768_DSI_CONFW + 2) (push_bit 13 5 OR push_bit 8 0x3),
             Write_req TC358768_DSI_CONFW (push_bit 29 6 OR push_bit 24 0x3 OR 0x8000),
             Write_req (TC358768_DSI_CONFW + 2) (push_bit 13 6 OR push_bit 8 0x3)])"
proof -
  have b4: "\<not> bit (push_bit 10 (frs d') OR push_bit 8 0x2 OR push_bit 4 0 OR push_bit 1 1 OR push_bit 0 1) (4 :: nat)"
    "bit (push_bit 10 (frs d') OR push_bit 8 0x2 OR push_bit 4 0 OR push_bit 1 1 OR push_bit 0 1) (0 :: nat)"
    "bit (push_bit 10 (frs d') OR push_bit 8 0x2 OR push_bit 4 1 OR push_bit 1 1 OR push_bit 0 1) (4 :: nat)"
    "bit (push_bit 10 (frs d') OR push_bit 8 0x2 OR push_bit 4 1 OR push_bit 1 1 OR push_bit 0 1) (0 :: nat)"
    by (simp_all add: bit_simps)
  have op: "drop_bit 29 (push_bit 29 5 OR push_bit 24 0x3 OR 0xa7 :: u32) = 5"
    "drop_bit 29 (push_bit 29 6 OR push_bit 24 0x3 OR 0x8000 :: u32) = 6"
    by simp_all
  show ?thesis
    using enable_pll_order [OF assms] enable_confw_order [OF assms]
      enable_confw_halves [OF assms] b4 op
    unfolding pll_view_def confw_view_def by blast
qed


theorem enable_order_witness:
  "map_option fst (enable_outcome probe_ddata bus0) = Some 0
   \<and> map_option (pll_view \<circ> map request_of \<circ> snd) (enable_outcome probe_ddata bus0) =
       Some [Sleep_req 1000 2000, Write_req TC358768_PLLCTL1 0x203,
             Sleep_req 1000 2000, Write_req TC358768_PLLCTL1 0x213]
   \<and> map_option (confw_view \<circ> map request_of \<circ> snd) (enable_outcome probe_ddata bus0) =
       Some [Write_req 0x500 0xa30000a7, Write_req 0x502 0xa300,
             Write_req 0x500 0xc3008000, Write_req 0x502 0xc300]"
proof -
  obtain b' where e: "tc358768_enable probe_ddata bus0 = Some (0, ddata_solved, b')"
    using enable_success [OF calc_pll_probe, of bus0] by blast
  have ok: "no_bus_error bus0" by (simp add: no_bus_error_def bus0_def)
  have o: "enable_outcome probe_ddata bus0 = Some (0, trace b')"
    by (simp add: enable_outcome_def e)
  have f: "frs ddata_solved = 0" by (simp add: ddata_solved_def)
  from enable_order [OF e] ok show ?thesis
    unfolding o by (simp add: requests_bus0 pll_view_def confw_view_def f reg_defs
                      requests_def [symmetric])
qed

text \<open>
  C2, amended. Once the solver has succeeded, enable returns 0 for every bus, whatever
  its registers hold and whatever return codes it is going to give, and every step of the
  sequence is started once, in source order: the reset line, each sleep, each 16-bit write,
  the first transaction of each 32-bit write and the read of each \<open>update_bits\<close>. A failed
  first transaction of a 32-bit write leaves out the second one of that write, and nothing
  more.
\<close>

theorem enable_ignores_bus_errors:
  assumes "tc358768_calc_pll d = Some (Inr d')"
  shows "(\<exists>b' v. tc358768_enable d b = Some (0, d', b') \<and> dsi_hsw_value d' = Some v \<and>
           filter starts_step (requests b') = filter starts_step (requests b) @ enable_steps d' v)
     \<and> (\<not> (reg < 0x100 \<or> reg \<ge> 0x600) \<and> next_rc b \<noteq> 0 \<longrightarrow>
           new_events b (snd (tc358768_write reg val b)) = [Bus_write reg val (next_rc b)] \<and>
           fst (tc358768_write reg val b) = next_rc b)"
proof -
  obtain b' v where e: "tc358768_enable d b = Some (0, d', b')" and v: "dsi_hsw_value d' = Some v"
    using enable_success [OF assms, of b] by blast
  from enable_steps_any_bus [OF e v] e v
  have "\<exists>b' v. tc358768_enable d b = Some (0, d', b') \<and> dsi_hsw_value d' = Some v \<and>
           filter starts_step (requests b') = filter starts_step (requests b) @ enable_steps d' v"
    by blast
  moreover have "\<not> (reg < 0x100 \<or> reg \<ge> 0x600) \<and> next_rc b \<noteq> 0 \<longrightarrow>
           new_events b (snd (tc358768_write reg val b)) = [Bus_write reg val (next_rc b)] \<and>
           fst (tc358768_write reg val b) = next_rc b"
    by (auto simp: write_wide_fail regmap_write_fst regmap_write_trace new_events_def)
  ultimately show ?thesis by blast
qed


theorem enable_ignores_bus_errors_witness:
  "map_option fst (enable_outcome probe_ddata bus_fail_first) = Some 0
   \<and> map_option (filter starts_step \<circ> map request_of \<circ> snd)
         (enable_outcome probe_ddata bus_fail_first) = Some (enable_steps ddata_solved 183)"
proof -
  from enable_ignores_bus_errors [OF calc_pll_probe, of bus_fail_first]
  obtain b' v where e: "tc358768_enable probe_ddata bus_fail_first = Some (0, ddata_solved, b')"
    and v: "dsi_hsw_value ddata_solved = Some v"
    and s: "filter starts_step (requests b') =
              filter starts_step (requests bus_fail_first) @ enable_steps ddata_solved v"
    by blast
  have "dsi_hsw_value ddata_solved = Some 183"
    by (simp add: dsi_hsw_value_def div_u64_def ddata_solved_def probe_ddata_def)
  with v have v183: "v = 183" by simp
  have r0: "requests bus_fail_first = []"
    by (simp add: requests_def bus_fail_first_def bus0_def)
  have o: "enable_outcome probe_ddata bus_fail_first = Some (0, trace b')"
    by (simp add: enable_outcome_def e)
  show ?thesis
    unfolding o using s unfolding r0 v183 by (simp add: requests_def)
qed

text \<open>
  C2 as stated fails. On a bus whose first transaction, the write of 1 to SYSCTL, fails
  with \<open>-EIO\<close>, enable still returns 0 and goes on: the next write follows at once and
  73 events are recorded in all, the same as on a bus that does not fail.
\<close>

theorem enable_ignores_bus_errors_counterexample:
  "map_option fst (enable_outcome probe_ddata bus_fail_first) = Some 0
   \<and> map_option (take 4 \<circ> snd) (enable_outcome probe_ddata bus_fail_first) =
       Some [Gpio_set True, Usleep_range 1000 2000,
             Bus_write TC358768_SYSCTL 1 (- 5), Bus_write TC358768_SYSCTL 0 0]
   \<and> map_option (length \<circ> snd) (enable_outcome probe_ddata bus_fail_first) = Some 73
   \<and> map_option (length \<circ> snd) (enable_outcome probe_ddata bus0) = Some 73"
  by code_simp


end
